theory Spec2Isabelle
  imports Main "HOL-Library.Word"
begin

unbundle bit_operations_syntax

section \<open>Library routines of the LISP mobile node daemon (lispd\_lib.c)\<close>

text \<open>
  A shallow embedding of the address, AFI, prefix and dispatch routines of
  \<^verbatim>\<open>lispd/lispd_lib.c\<close>.  C \<^verbatim>\<open>int\<close> values that are only compared or passed on
  (status codes, address families, prefix lengths) are \<^typ>\<open>int\<close>; the fixed-width
  unsigned integers the code shifts and masks are words.  Undefined behaviour of the C
  code (a shift by a negative or too large amount, a store outside an array, a read past
  the end of a buffer, an \<^verbatim>\<open>atoi\<close> overflow) is the result \<^term>\<open>None\<close>.
  Calls of \<^verbatim>\<open>lispd_log_msg\<close> only write a diagnostic line and are left out.
\<close>

type_synonym u8 = "8 word"
type_synonym u16 = "16 word"
type_synonym u32 = "32 word"

subsection \<open>Values the file takes from headers\<close>

text \<open>
  The macros below are used by \<^verbatim>\<open>lispd_lib.c\<close> but defined in headers outside the
  translated file (\<^verbatim>\<open>lispd.h\<close>, \<^verbatim>\<open>lispd_afi.h\<close>, the system's socket headers), and
  the byte order of the host is a property of the platform.  They are parameters of the
  model: every function takes the record of their values.
\<close>

record headers =
  GOOD :: int
  BAD :: int
  TRUE :: int
  FALSE :: int
  ERR_AFI :: int
  AF_UNSPEC :: int
  AF_INET :: int
  AF_INET6 :: int
  LISP_AFI_NO_ADDR :: int
  LISP_AFI_IP :: int
  LISP_AFI_IPV6 :: int
  LISP_AFI_LCAF :: int
  LISP_MAP_REQUEST :: int
  LISP_MAP_REPLY :: int
  LISP_MAP_REGISTER :: int
  LISP_MAP_NOTIFY :: int
  LISP_MAP_REFERRAL :: int
  LISP_INFO_NAT :: int
  LISP_ENCAP_CONTROL_TYPE :: int
  little_endian :: bool

text \<open>
  C refuses a \<^verbatim>\<open>switch\<close> with two equal case labels, so the labels of each
  \<^verbatim>\<open>switch\<close> of the file are pairwise different: those of \<^verbatim>\<open>lisp2inetafi\<close>, those
  of \<^verbatim>\<open>inet2lispafi\<close> and \<^verbatim>\<open>extract_lisp_address\<close>, and those of
  \<^verbatim>\<open>process_lisp_ctr_msg\<close>.
\<close>

definition afi_labels_distinct :: "headers \<Rightarrow> bool" where
  "afi_labels_distinct H \<longleftrightarrow>
     distinct [LISP_AFI_NO_ADDR H, LISP_AFI_IP H, LISP_AFI_IPV6 H, LISP_AFI_LCAF H]"

definition family_labels_distinct :: "headers \<Rightarrow> bool" where
  "family_labels_distinct H \<longleftrightarrow>
     distinct [AF_UNSPEC H, AF_INET H, AF_INET6 H, LISP_AFI_LCAF H]"

definition msg_labels_distinct :: "headers \<Rightarrow> bool" where
  "msg_labels_distinct H \<longleftrightarrow>
     distinct [LISP_MAP_REQUEST H, LISP_MAP_REPLY H, LISP_MAP_REGISTER H,
       LISP_MAP_NOTIFY H, LISP_MAP_REFERRAL H, LISP_INFO_NAT H, LISP_ENCAP_CONTROL_TYPE H]"

text \<open>The protocol AFI numbers travel in a 16-bit field.\<close>

definition afi_fits_u16 :: "headers \<Rightarrow> bool" where
  "afi_fits_u16 H \<longleftrightarrow>
     list_all (\<lambda>v. 0 \<le> v \<and> v < 65536)
       [LISP_AFI_NO_ADDR H, LISP_AFI_IP H, LISP_AFI_IPV6 H, LISP_AFI_LCAF H]"

text \<open>
  The status codes are told apart by their callers: success from failure, true from
  false, and the AFI error from success and from every family a \<^verbatim>\<open>switch\<close> accepts.
  \<^verbatim>\<open>get_lisp_addr_from_char\<close> keeps its status in a \<^verbatim>\<open>uint8_t\<close>, so \<^verbatim>\<open>GOOD\<close> and
  \<^verbatim>\<open>BAD\<close> are byte values.
\<close>

definition status_codes_ok :: "headers \<Rightarrow> bool" where
  "status_codes_ok H \<longleftrightarrow>
     GOOD H \<noteq> BAD H \<and> TRUE H \<noteq> FALSE H \<and> TRUE H \<noteq> BAD H \<and> ERR_AFI H \<noteq> GOOD H \<and>
     ERR_AFI H \<notin> set [AF_UNSPEC H, AF_INET H, AF_INET6 H, LISP_AFI_LCAF H] \<and>
     0 \<le> GOOD H \<and> GOOD H < 256 \<and> 0 \<le> BAD H \<and> BAD H < 256"

text \<open>
  One assignment of the parameters, for evaluating the functions on concrete inputs: the
  socket families of Linux, the protocol numbers of the wire format (0, 1, 2 and a
  reserved high value for LCAF), small status codes, and a little-endian host.
\<close>

definition example_headers :: headers where
  "example_headers =
     \<lparr> GOOD = 1, BAD = 0, TRUE = 1, FALSE = 0, ERR_AFI = - 2,
       AF_UNSPEC = 0, AF_INET = 2, AF_INET6 = 10,
       LISP_AFI_NO_ADDR = 0, LISP_AFI_IP = 1, LISP_AFI_IPV6 = 2, LISP_AFI_LCAF = 16387,
       LISP_MAP_REQUEST = 1, LISP_MAP_REPLY = 2, LISP_MAP_REGISTER = 3,
       LISP_MAP_NOTIFY = 4, LISP_MAP_REFERRAL = 6, LISP_INFO_NAT = 7,
       LISP_ENCAP_CONTROL_TYPE = 8, little_endian = True \<rparr>"

subsection \<open>Addresses\<close>

text \<open>
  \<^verbatim>\<open>lisp_addr_t\<close> holds a family and a union of \<^verbatim>\<open>struct in_addr\<close> and
  \<^verbatim>\<open>struct in6_addr\<close>.  The union is its 16 bytes of storage, in memory order:
  \<^verbatim>\<open>address.ip\<close> is the first four of them, \<^verbatim>\<open>address.ipv6\<close> all sixteen.
\<close>

record lisp_addr_t =
  afi :: int
  address :: "u8 list"

subsection \<open>AFI translation\<close>

text \<open>\<^verbatim>\<open>int lisp2inetafi(uint16_t afi)\<close>: protocol AFI to host family.\<close>

definition lisp2inetafi :: "headers \<Rightarrow> u16 \<Rightarrow> int" where
  "lisp2inetafi H afi_tag =
     (if uint afi_tag = LISP_AFI_NO_ADDR H then AF_UNSPEC H
      else if uint afi_tag = LISP_AFI_IP H then AF_INET H
      else if uint afi_tag = LISP_AFI_IPV6 H then AF_INET6 H
      else if uint afi_tag = LISP_AFI_LCAF H then LISP_AFI_LCAF H
      else ERR_AFI H)"

text \<open>\<^verbatim>\<open>int inet2lispafi(int afi)\<close>: host family to protocol AFI; the default is 0.\<close>

definition inet2lispafi :: "headers \<Rightarrow> int \<Rightarrow> int" where
  "inet2lispafi H family =
     (if family = AF_UNSPEC H then LISP_AFI_NO_ADDR H
      else if family = AF_INET H then LISP_AFI_IP H
      else if family = AF_INET6 H then LISP_AFI_IPV6 H
      else if family = LISP_AFI_LCAF H then LISP_AFI_LCAF H
      else 0)"

subsection \<open>Comparison\<close>

text \<open>
  \<^verbatim>\<open>memcmp\<close> over two byte ranges of the same length: the sign of the first
  difference, bytes read as unsigned.
\<close>

fun memcmp :: "u8 list \<Rightarrow> u8 list \<Rightarrow> int" where
  "memcmp (x # xs) (y # ys) = (if x = y then memcmp xs ys else int (unat x) - int (unat y))"
| "memcmp _ _ = 0"

text \<open>
  \<^verbatim>\<open>compare_lisp_addr_t\<close> takes two pointers, either of which may be \<^verbatim>\<open>NULL\<close>
  (\<^term>\<open>None\<close>).  The tail of the function turns the result of \<^verbatim>\<open>memcmp\<close> into
  0, 1 or 2 (\<^term>\<open>cmp_outcome\<close>).
\<close>

definition cmp_outcome :: "int \<Rightarrow> int" where
  "cmp_outcome cmp = (if cmp = 0 then 0 else if cmp > 0 then 1 else 2)"

definition compare_lisp_addr_t :: "headers \<Rightarrow> lisp_addr_t option \<Rightarrow> lisp_addr_t option \<Rightarrow> int" where
  "compare_lisp_addr_t H addr1 addr2 =
     (case addr1 of
        None \<Rightarrow> - 1
      | Some a1 \<Rightarrow>
          (case addr2 of
             None \<Rightarrow> - 1
           | Some a2 \<Rightarrow>
               if afi a1 \<noteq> afi a2 then - 1
               else if afi a1 = AF_INET H then
                 cmp_outcome (memcmp (take 4 (address a1)) (take 4 (address a2)))
               else if afi a1 = AF_INET6 H then
                 cmp_outcome (memcmp (take 16 (address a1)) (take 16 (address a2)))
               else - 1))"

subsection \<open>Memory and byte order\<close>

text \<open>
  A 32-bit or 16-bit object in memory is a run of bytes.  \<^term>\<open>word_of_bytes\<close> reads
  a run with the most significant byte first, \<^term>\<open>bytes_of32\<close> writes one.  A load
  through a \<^verbatim>\<open>uint32_t *\<close> reads the four bytes in the order of the host, a store
  writes them so; \<^verbatim>\<open>ntohl\<close>, \<^verbatim>\<open>htonl\<close> and \<^verbatim>\<open>ntohs\<close> swap the bytes on a
  little-endian host and do nothing on a big-endian one.
\<close>

definition word_of_bytes :: "u8 list \<Rightarrow> 'a::len word" where
  "word_of_bytes bs = foldl (\<lambda>acc b. push_bit 8 acc OR ucast b) 0 bs"

definition bytes_of32 :: "u32 \<Rightarrow> u8 list" where
  "bytes_of32 w = [ucast (drop_bit 24 w), ucast (drop_bit 16 w), ucast (drop_bit 8 w), ucast w]"

definition bytes_of16 :: "u16 \<Rightarrow> u8 list" where
  "bytes_of16 w = [ucast (drop_bit 8 w), ucast w]"

definition load32 :: "headers \<Rightarrow> u8 list \<Rightarrow> nat \<Rightarrow> u32" where
  "load32 H m off =
     (let bs = take 4 (drop off m) in word_of_bytes (if little_endian H then rev bs else bs))"

definition load16 :: "headers \<Rightarrow> u8 list \<Rightarrow> nat \<Rightarrow> u16" where
  "load16 H m off =
     (let bs = take 2 (drop off m) in word_of_bytes (if little_endian H then rev bs else bs))"

definition stored32 :: "headers \<Rightarrow> u32 \<Rightarrow> u8 list" where
  "stored32 H w = (if little_endian H then rev (bytes_of32 w) else bytes_of32 w)"

definition ntohl :: "headers \<Rightarrow> u32 \<Rightarrow> u32" where
  "ntohl H w = (if little_endian H then word_of_bytes (rev (bytes_of32 w)) else w)"

definition htonl :: "headers \<Rightarrow> u32 \<Rightarrow> u32" where
  "htonl H w = (if little_endian H then word_of_bytes (rev (bytes_of32 w)) else w)"

definition ntohs :: "headers \<Rightarrow> u16 \<Rightarrow> u16" where
  "ntohs H w = (if little_endian H then word_of_bytes (rev (bytes_of16 w)) else w)"

subsection \<open>Network address of a prefix\<close>

text \<open>
  The source's variable \<^verbatim>\<open>mask\<close> is \<open>msk\<close> here.  A C shift \<^verbatim>\<open>w << n\<close> of a
  32-bit unsigned value is defined for \<open>0 \<le> n < 32\<close> only.  C division truncates
  towards zero, and the remainder has the sign of the dividend.
\<close>

definition shl32 :: "u32 \<Rightarrow> int \<Rightarrow> u32 option" where
  "shl32 w n = (if 0 \<le> n \<and> n < 32 then Some (push_bit (nat n) w) else None)"

definition c_div :: "int \<Rightarrow> int \<Rightarrow> int" where
  "c_div x y = sgn x * sgn y * (\<bar>x\<bar> div \<bar>y\<bar>)"

definition c_mod :: "int \<Rightarrow> int \<Rightarrow> int" where
  "c_mod x y = x - y * c_div x y"

text \<open>
  \<^verbatim>\<open>get_network_address_v4\<close>.  The result starts as \<^verbatim>\<open>{.afi=AF_INET}\<close>, all
  other bytes zero, and gets its first four bytes from the store to
  \<^verbatim>\<open>address.ip.s_addr\<close>.
\<close>

definition get_network_address_v4 :: "headers \<Rightarrow> lisp_addr_t \<Rightarrow> int \<Rightarrow> lisp_addr_t option" where
  "get_network_address_v4 H a prefix_length =
     (let addr = ntohl H (load32 H (address a) 0) in
      case (if prefix_length \<noteq> 0 then shl32 0xFFFFFFFF (32 - prefix_length) else Some 0) of
        None \<Rightarrow> None
      | Some msk \<Rightarrow>
          Some \<lparr>afi = AF_INET H,
                address = stored32 H (htonl H (addr AND msk)) @ replicate 12 0\<rparr>)"

text \<open>
  \<^verbatim>\<open>get_network_address_v6\<close> builds \<^verbatim>\<open>uint32_t mask[4]\<close>.  A store
  \<^verbatim>\<open>mask[i] = v\<close> is defined for \<open>0 \<le> i < 4\<close> only.  The first loop is
  \<^verbatim>\<open>for (ctr = 0; ctr < a; ctr++) mask[ctr] = 0xFFFFFFFF\<close>.
\<close>

definition set_mask :: "u32 list \<Rightarrow> int \<Rightarrow> u32 \<Rightarrow> u32 list option" where
  "set_mask msk i v = (if 0 \<le> i \<and> i < 4 then Some (msk[nat i := v]) else None)"

function fill_mask :: "int \<Rightarrow> int \<Rightarrow> u32 list \<Rightarrow> u32 list option" where
  "fill_mask ctr a msk =
     (if ctr < a then
        (case set_mask msk ctr 0xFFFFFFFF of
           None \<Rightarrow> None
         | Some msk' \<Rightarrow> fill_mask (ctr + 1) a msk')
      else Some msk)"
  by pat_completeness auto
termination
  by (relation "measure (\<lambda>(ctr, a, msk). nat (a - ctr))") auto

definition get_network_address_v6 :: "headers \<Rightarrow> lisp_addr_t \<Rightarrow> int \<Rightarrow> lisp_addr_t option" where
  "get_network_address_v6 H a_in prefix_length =
     (let a = c_div prefix_length 32; b = c_mod prefix_length 32 in
      case fill_mask 0 a [0, 0, 0, 0] of
        None \<Rightarrow> None
      | Some msk1 \<Rightarrow>
          (case (if b \<noteq> 0 then
                   (case shl32 0xFFFFFFFF (32 - b) of
                      None \<Rightarrow> None
                    | Some v \<Rightarrow> set_mask msk1 a v)
                 else Some msk1) of
             None \<Rightarrow> None
           | Some msk \<Rightarrow>
               Some \<lparr>afi = AF_INET6 H,
                     address = concat (map (\<lambda>ctr.
                        stored32 H (htonl H (ntohl H (load32 H (address a_in) (4 * ctr)) AND msk ! ctr)))
                        [0..<4])\<rparr>))"

text \<open>
  \<^verbatim>\<open>get_network_address\<close>: for a family other than IPv4 and IPv6 the result is the
  initial value \<^verbatim>\<open>{.afi = AF_UNSPEC}\<close>.
\<close>

definition get_network_address :: "headers \<Rightarrow> lisp_addr_t \<Rightarrow> int \<Rightarrow> lisp_addr_t option" where
  "get_network_address H a prefix_length =
     (if afi a = AF_INET H then get_network_address_v4 H a prefix_length
      else if afi a = AF_INET6 H then get_network_address_v6 H a prefix_length
      else Some \<lparr>afi = AF_UNSPEC H, address = replicate 16 0\<rparr>)"

text \<open>\<^verbatim>\<open>is_prefix_b_part_of_a\<close>: is prefix b contained in prefix a?\<close>

definition is_prefix_b_part_of_a ::
  "headers \<Rightarrow> lisp_addr_t \<Rightarrow> int \<Rightarrow> lisp_addr_t \<Rightarrow> int \<Rightarrow> int option" where
  "is_prefix_b_part_of_a H a_prefix a_prefix_length b_prefix b_prefix_length =
     (if afi a_prefix \<noteq> afi b_prefix then Some (FALSE H)
      else if a_prefix_length > b_prefix_length then Some (FALSE H)
      else
        (case get_network_address H a_prefix a_prefix_length of
           None \<Rightarrow> None
         | Some a_network_addr \<Rightarrow>
             (case get_network_address H b_prefix a_prefix_length of
                None \<Rightarrow> None
              | Some b_network_addr_prefix_a \<Rightarrow>
                  if compare_lisp_addr_t H (Some a_network_addr) (Some b_network_addr_prefix_a) = 0
                  then Some (TRUE H) else Some (FALSE H))))"

subsection \<open>Wire deserialization\<close>

text \<open>
  \<^verbatim>\<open>extract_lisp_address(ptr, addr)\<close> reads from the bytes at \<^verbatim>\<open>ptr\<close> and writes
  through \<^verbatim>\<open>addr\<close>: the result is the status and the address written.  The
  \<^verbatim>\<open>memcpy\<close> to \<^verbatim>\<open>addr->address\<close> replaces the first 4 or 16 bytes of the union
  and leaves the others.  A read past the end of the given bytes is \<^term>\<open>None\<close>.
\<close>

definition extract_lisp_address ::
  "headers \<Rightarrow> u8 list \<Rightarrow> lisp_addr_t \<Rightarrow> (int \<times> lisp_addr_t) option" where
  "extract_lisp_address H ptr addr =
     (if length ptr < 2 then None
      else
        let addr1 = addr\<lparr>afi := lisp2inetafi H (ntohs H (load16 H ptr 0))\<rparr>;
            ptr1 = drop 2 ptr
        in
          if afi addr1 = AF_INET H then
            (if length ptr1 < 4 then None
             else Some (GOOD H, addr1\<lparr>address := take 4 ptr1 @ drop 4 (address addr1)\<rparr>))
          else if afi addr1 = AF_INET6 H then
            (if length ptr1 < 16 then None
             else Some (GOOD H, addr1\<lparr>address := take 16 ptr1 @ drop 16 (address addr1)\<rparr>))
          else if afi addr1 = AF_UNSPEC H then Some (GOOD H, addr1)
          else if afi addr1 = LISP_AFI_LCAF H then Some (ERR_AFI H, addr1)
          else Some (ERR_AFI H, addr1))"

subsection \<open>Host names\<close>










text \<open>
  The masks as the specification words them: a 32-bit mask whose top \<open>n\<close> bits are
  set; and, for an IPv6 prefix length, the mask of the word with a given index: all bits
  for the first \<open>len div 32\<close> words, the top \<open>len mod 32\<close> bits for the word with
  index \<open>len div 32\<close> when \<open>len mod 32\<close> is not 0, and no bit for every later word.
\<close>

definition spec_mask32 :: "nat \<Rightarrow> u32" where
  "spec_mask32 n = NOT (mask (32 - n))"

definition spec_mask_v6 :: "nat \<Rightarrow> nat \<Rightarrow> u32" where
  "spec_mask_v6 len i =
     (if i < len div 32 then - 1
      else if i = len div 32 \<and> len mod 32 \<noteq> 0 then spec_mask32 (len mod 32)
      else 0)"

text \<open>
  The invariant of a prefix in the data model of the specification: the length is in
  \<open>[0, 32]\<close> for an IPv4 address and in \<open>[0, 128]\<close> for an IPv6 address; an
  address of any other family has no valid prefix length.
\<close>

definition valid_prefix :: "headers \<Rightarrow> lisp_addr_t \<Rightarrow> int \<Rightarrow> bool" where
  "valid_prefix H a len \<longleftrightarrow>
     (afi a = AF_INET H \<and> 0 \<le> len \<and> len \<le> 32) \<or>
     (afi a = AF_INET6 H \<and> 0 \<le> len \<and> len \<le> 128)"

text \<open>
  The truncation of an address as the specification words it.  The storage of an address
  (the union inside \<^verbatim>\<open>lisp_addr_t\<close>) has 16 bytes; the bytes of the address are the
  first 4 of them for an IPv4 address and all 16 otherwise, in network order.  Read as a
  sequence of bits, the most significant bit of each byte first, the address truncated to
  \<open>len\<close> bits is the sequence of its first \<open>len\<close> bits.  No mask, shift or byte swap
  takes part in it.  \<open>word_bits\<close> reads a 32-bit word in the same order.
\<close>

definition addr_sized :: "lisp_addr_t \<Rightarrow> bool" where
  "addr_sized a \<longleftrightarrow> length (address a) = 16"

definition byte_bits :: "u8 \<Rightarrow> bool list" where
  "byte_bits b = map (bit b) [7, 6, 5, 4, 3, 2, 1, 0]"

definition wire_bits :: "u8 list \<Rightarrow> bool list" where
  "wire_bits bs = concat (map byte_bits bs)"

definition family_bytes :: "headers \<Rightarrow> lisp_addr_t \<Rightarrow> u8 list" where
  "family_bytes H a = (if afi a = AF_INET H then take 4 (address a) else take 16 (address a))"

definition spec_truncate :: "headers \<Rightarrow> lisp_addr_t \<Rightarrow> int \<Rightarrow> bool list" where
  "spec_truncate H a len = take (nat len) (wire_bits (family_bytes H a))"

definition word_bits :: "u32 \<Rightarrow> bool list" where
  "word_bits w = map (\<lambda>i. bit w (31 - i)) [0..<32]"

subsection \<open>Parsing a prefix\<close>













subsection \<open>Control message dispatch\<close>

text \<open>
  The socket layer and the handlers of the message types are other files of the daemon.
  The dispatcher only calls them, so they are parameters: each works on a state of the
  rest of the daemon (\<^typ>\<open>'w\<close>) and returns a status.  A handler call is recorded
  with its arguments.
\<close>

datatype handler_call =
    Process_map_request_msg "u8 list" lisp_addr_t u16
  | Process_map_reply "u8 list"
  | Process_map_notify "u8 list"
  | Process_map_referral "u8 list"
  | Process_info_nat_msg "u8 list" lisp_addr_t

record 'w collaborators =
  get_packet_and_socket_inf :: "int \<Rightarrow> int \<Rightarrow> 'w \<Rightarrow> (int \<times> u8 list \<times> lisp_addr_t \<times> u16) \<times> 'w"
  run_handler :: "handler_call \<Rightarrow> 'w \<Rightarrow> int \<times> 'w"

text \<open>
  Modelled from the spec: the struct \<^verbatim>\<open>lisp_encap_control_hdr_t\<close>, whose field
  \<^verbatim>\<open>type\<close> the dispatcher reads, is declared in a header that is not among the
  sources.  By the wire format of the specification the type discriminator is the high
  nibble of the first byte of the message.  The buffer is an array of
  \<^verbatim>\<open>MAX_IP_PACKET\<close> bytes, so it has a first byte.
\<close>

definition msg_type :: "u8 list \<Rightarrow> int" where
  "msg_type packet = uint (drop_bit 4 (hd packet))"

text \<open>
  A handler is called and its status tested: anything but \<^verbatim>\<open>GOOD\<close> makes the
  dispatcher return \<^verbatim>\<open>BAD\<close>.
\<close>

definition call_handler ::
  "headers \<Rightarrow> 'w collaborators \<Rightarrow> handler_call \<Rightarrow> 'w \<Rightarrow> int \<times> handler_call list \<times> 'w" where
  "call_handler H C c w =
     (case run_handler C c w of
        (r, w') \<Rightarrow> (if r \<noteq> GOOD H then BAD H else GOOD H, [c], w'))"

text \<open>
  \<^verbatim>\<open>process_lisp_ctr_msg(sock, afi)\<close> returns its status, the handler calls it
  made, and the state they left.
\<close>

definition process_lisp_ctr_msg ::
  "headers \<Rightarrow> 'w collaborators \<Rightarrow> int \<Rightarrow> int \<Rightarrow> 'w \<Rightarrow> int \<times> handler_call list \<times> 'w" where
  "process_lisp_ctr_msg H C sock family w =
     (case get_packet_and_socket_inf C sock family w of
        ((r, packet, local_rloc, remote_port), w1) \<Rightarrow>
          if r \<noteq> GOOD H then (BAD H, [], w1)
          else
            let t = msg_type packet in
            if t = LISP_MAP_REQUEST H then
              call_handler H C (Process_map_request_msg packet local_rloc remote_port) w1
            else if t = LISP_MAP_REPLY H then
              call_handler H C (Process_map_reply packet) w1
            else if t = LISP_MAP_REGISTER H then (GOOD H, [], w1)
            else if t = LISP_MAP_NOTIFY H then
              call_handler H C (Process_map_notify packet) w1
            else if t = LISP_MAP_REFERRAL H then
              call_handler H C (Process_map_referral packet) w1
            else if t = LISP_INFO_NAT H then
              call_handler H C (Process_info_nat_msg packet local_rloc) w1
            else if t = LISP_ENCAP_CONTROL_TYPE H then
              call_handler H C (Process_map_request_msg packet local_rloc remote_port) w1
            else (GOOD H, [], w1))"

text \<open>
  A socket layer that delivers a given message, and handlers that count their calls and
  fail: for evaluating the dispatcher on concrete messages.
\<close>

definition example_collaborators :: "u8 list \<Rightarrow> nat collaborators" where
  "example_collaborators packet =
     \<lparr> get_packet_and_socket_inf =
         (\<lambda>sock family w. ((1, packet, \<lparr>afi = 2, address = [10, 0, 0, 1] @ replicate 12 0\<rparr>, 4342), w)),
       run_handler = (\<lambda>c w. (0, Suc w)) \<rparr>"

section \<open>Properties\<close>

lemma example_headers_labels:
  "afi_labels_distinct example_headers" "family_labels_distinct example_headers"
  "msg_labels_distinct example_headers" "afi_fits_u16 example_headers"
  "status_codes_ok example_headers"
  by (simp_all add: afi_labels_distinct_def family_labels_distinct_def msg_labels_distinct_def
      afi_fits_u16_def status_codes_ok_def example_headers_def)

lemma example_headers_simps:
  "GOOD example_headers = 1" "BAD example_headers = 0" "TRUE example_headers = 1"
  "FALSE example_headers = 0" "ERR_AFI example_headers = - 2"
  "AF_UNSPEC example_headers = 0" "AF_INET example_headers = 2" "AF_INET6 example_headers = 10"
  "LISP_AFI_NO_ADDR example_headers = 0" "LISP_AFI_IP example_headers = 1"
  "LISP_AFI_IPV6 example_headers = 2" "LISP_AFI_LCAF example_headers = 16387"
  "LISP_MAP_REQUEST example_headers = 1" "LISP_MAP_REPLY example_headers = 2"
  "LISP_MAP_REGISTER example_headers = 3" "LISP_MAP_NOTIFY example_headers = 4"
  "LISP_MAP_REFERRAL example_headers = 6" "LISP_INFO_NAT example_headers = 7"
  "LISP_ENCAP_CONTROL_TYPE example_headers = 8" "little_endian example_headers = True"
  by (simp_all add: example_headers_def)

lemma example_families: "AF_INET example_headers \<noteq> AF_INET6 example_headers"
  by (simp add: example_headers_simps)

subsection \<open>Byte order and masks\<close>

lemma bytes_of32_word_of_bytes:
  "bytes_of32 (word_of_bytes [b0, b1, b2, b3]) = [b0, b1, b2, b3]"
  unfolding bytes_of32_def word_of_bytes_def
  apply simp
  apply (intro conjI bit_word_eqI)
     apply (auto simp: bit_simps dest: bit_imp_le_length)
  done

lemma word_of_bytes_bytes_of32: "word_of_bytes (bytes_of32 w) = w"
  unfolding bytes_of32_def word_of_bytes_def
  apply simp
  apply (rule bit_word_eqI)
  subgoal for n
    apply (cases "n < 8"; cases "n < 16"; cases "n < 24")
    apply (auto simp: bit_simps)
    done
  done

lemma length_bytes_of32 [simp]: "length (bytes_of32 w) = 4"
  by (simp add: bytes_of32_def)

lemma list4: "length bs = 4 \<Longrightarrow> \<exists>b0 b1 b2 b3. bs = [b0, b1, b2, b3]"
  by (cases bs; simp; cases "tl bs"; simp; cases "tl (tl bs)"; simp; cases "tl (tl (tl bs))"; simp)

lemma bytes_of32_word_of_bytes_list:
  "length bs = 4 \<Longrightarrow> bytes_of32 (word_of_bytes bs) = bs"
  using list4 [of bs] by (auto simp: bytes_of32_word_of_bytes)

lemma ntohl_load32:
  assumes "off + 4 \<le> length m"
  shows "ntohl H (load32 H m off) = word_of_bytes (take 4 (drop off m))"
proof -
  have "length (rev (take 4 (drop off m))) = 4" using assms by simp
  then show ?thesis
    by (simp add: ntohl_def load32_def bytes_of32_word_of_bytes_list)
qed

lemma stored32_htonl: "stored32 H (htonl H w) = bytes_of32 w"
  by (simp add: stored32_def htonl_def bytes_of32_word_of_bytes_list)

lemma all_ones32: "(0xFFFFFFFF :: u32) = - 1"
  by simp

lemma shl32_ones:
  "0 < n \<Longrightarrow> n \<le> 32 \<Longrightarrow> shl32 0xFFFFFFFF (32 - n) = Some (spec_mask32 (nat n))"
  by (simp add: shl32_def spec_mask32_def all_ones32 nat_diff_distrib del: word_eq_numeral_iff_iszero)

lemma spec_mask32_0: "spec_mask32 0 = 0"
  by (rule bit_word_eqI) (simp add: spec_mask32_def bit_simps)

lemma bit_spec_mask32: "bit (spec_mask32 n) i \<longleftrightarrow> i < 32 \<and> 32 - n \<le> i"
  by (auto simp: spec_mask32_def bit_simps)

lemma upt_0_4: "[0..<4] = [0, 1, 2, 3]"
  by (simp add: upt_rec)

lemma c_div_nonneg: "c_div (int n) 32 = int (n div 32)"
  by (cases "n = 0") (simp_all add: c_div_def zdiv_int)

lemma c_mod_nonneg: "c_mod (int n) 32 = int (n mod 32)"
  by (simp add: c_mod_def c_div_nonneg zmod_int minus_mult_div_eq_mod of_nat_mod of_nat_div)

lemma fill_mask_0:
  "fill_mask 0 0 m = Some m"
  "fill_mask 0 1 [m0, m1, m2, m3] = Some [- 1, m1, m2, m3]"
  "fill_mask 0 2 [m0, m1, m2, m3] = Some [- 1, - 1, m2, m3]"
  "fill_mask 0 3 [m0, m1, m2, m3] = Some [- 1, - 1, - 1, m3]"
  "fill_mask 0 4 [m0, m1, m2, m3] = Some [- 1, - 1, - 1, - 1]"
  by (simp_all add: set_mask_def)

lemma get_network_address_v4_eq:
  assumes "0 \<le> len" and "len \<le> 32"
  shows "get_network_address_v4 H a len =
    Some \<lparr>afi = AF_INET H,
          address = stored32 H (htonl H (ntohl H (load32 H (address a) 0) AND
                      spec_mask32 (nat len))) @ replicate 12 0\<rparr>"
proof (cases "len = 0")
  case True
  then show ?thesis by (simp add: get_network_address_v4_def spec_mask32_0)
next
  case False
  with assms have "shl32 0xFFFFFFFF (32 - len) = Some (spec_mask32 (nat len))"
    by (intro shl32_ones) simp_all
  with False show ?thesis by (simp add: get_network_address_v4_def)
qed

lemma get_network_address_v6_eq:
  assumes "0 \<le> len" and "len \<le> 128"
  shows "get_network_address_v6 H a len =
    Some \<lparr>afi = AF_INET6 H,
          address = concat (map (\<lambda>i.
             stored32 H (htonl H (ntohl H (load32 H (address a) (4 * i)) AND
               spec_mask_v6 (nat len) i))) [0..<4])\<rparr>"
proof -
  define n where "n = nat len"
  with assms have n: "len = int n" "n \<le> 128" by simp_all
  define q r where "q = n div 32" and "r = n mod 32"
  have r: "r < 32" by (simp add: r_def)
  have sh: "shl32 0xFFFFFFFF (32 - int r) = Some (spec_mask32 r)" if "r \<noteq> 0"
    using shl32_ones [of "int r"] r that by simp
  have dm: "c_div len 32 = int q" "c_mod len 32 = int r" "nat len div 32 = q" "nat len mod 32 = r"
    by (simp_all add: n c_div_nonneg c_mod_nonneg q_def r_def)
  from n have "q \<le> 4" by (simp add: q_def)
  then consider "q = 0" | "q = 1" | "q = 2" | "q = 3" | "q = 4" by linarith
  then show ?thesis
  proof cases
    case 1
    show ?thesis
    proof (cases "r = 0")
      case True
      with 1 show ?thesis
        by (simp add: get_network_address_v6_def dm fill_mask_0 upt_0_4
          spec_mask_v6_def del: fill_mask.simps)
    next
      case False
      with 1 sh show ?thesis
        by (simp add: get_network_address_v6_def dm fill_mask_0 set_mask_def upt_0_4
          spec_mask_v6_def del: fill_mask.simps)
    qed
  next
    case 2
    show ?thesis
    proof (cases "r = 0")
      case True
      with 2 show ?thesis
        by (simp add: get_network_address_v6_def dm fill_mask_0 upt_0_4
          spec_mask_v6_def del: fill_mask.simps)
    next
      case False
      with 2 sh show ?thesis
        by (simp add: get_network_address_v6_def dm fill_mask_0 set_mask_def upt_0_4
          spec_mask_v6_def del: fill_mask.simps)
    qed
  next
    case 3
    show ?thesis
    proof (cases "r = 0")
      case True
      with 3 show ?thesis
        by (simp add: get_network_address_v6_def dm fill_mask_0 upt_0_4
          spec_mask_v6_def del: fill_mask.simps)
    next
      case False
      with 3 sh show ?thesis
        by (simp add: get_network_address_v6_def dm fill_mask_0 set_mask_def upt_0_4
          spec_mask_v6_def del: fill_mask.simps)
    qed
  next
    case 4
    show ?thesis
    proof (cases "r = 0")
      case True
      with 4 show ?thesis
        by (simp add: get_network_address_v6_def dm fill_mask_0 upt_0_4
          spec_mask_v6_def del: fill_mask.simps)
    next
      case False
      with 4 sh show ?thesis
        by (simp add: get_network_address_v6_def dm fill_mask_0 set_mask_def upt_0_4
          spec_mask_v6_def del: fill_mask.simps)
    qed
  next
    case 5
    with n have "r = 0" unfolding q_def r_def by presburger
    with 5 show ?thesis
      by (simp add: get_network_address_v6_def dm fill_mask_0 upt_0_4
          spec_mask_v6_def del: fill_mask.simps)
  qed
qed

lemma wire_and_mask:
  assumes "off + 4 \<le> length m"
  shows "stored32 H (htonl H (ntohl H (load32 H m off) AND k)) =
         bytes_of32 (word_of_bytes (take 4 (drop off m)) AND k)"
  using assms by (simp add: ntohl_load32 stored32_htonl)

lemma replicate_12: "replicate 12 x = [x, x, x, x, x, x, x, x, x, x, x, x]"
  by (simp add: eval_nat_numeral)

lemma length_stored32 [simp]: "length (stored32 H w) = 4"
  by (simp add: stored32_def)

lemma memcmp_eq_0_iff:
  "length xs = length ys \<Longrightarrow> memcmp xs ys = 0 \<longleftrightarrow> xs = ys"
proof (induction xs ys rule: list_induct2)
  case Nil
  then show ?case by simp
next
  case (Cons x xs y ys)
  have "int (unat x) - int (unat y) = 0 \<longleftrightarrow> x = y"
    using word_uint_eq_iff [of x y] by auto
  with Cons show ?case by simp
qed

lemma length_v6_bytes:
  "length (concat (map (\<lambda>i. stored32 H (f i)) [0..<4])) = 16"
  by (simp add: upt_0_4)



subsection \<open>AFI translation\<close>

lemma lisp2inetafi_on_labels:
  assumes "afi_labels_distinct H"
  shows "uint t = LISP_AFI_NO_ADDR H \<Longrightarrow> lisp2inetafi H t = AF_UNSPEC H"
    and "uint t = LISP_AFI_IP H \<Longrightarrow> lisp2inetafi H t = AF_INET H"
    and "uint t = LISP_AFI_IPV6 H \<Longrightarrow> lisp2inetafi H t = AF_INET6 H"
    and "uint t = LISP_AFI_LCAF H \<Longrightarrow> lisp2inetafi H t = LISP_AFI_LCAF H"
  using assms by (simp_all add: afi_labels_distinct_def lisp2inetafi_def)

lemma inet2lispafi_on_labels:
  assumes "family_labels_distinct H"
  shows "inet2lispafi H (AF_UNSPEC H) = LISP_AFI_NO_ADDR H"
    and "inet2lispafi H (AF_INET H) = LISP_AFI_IP H"
    and "inet2lispafi H (AF_INET6 H) = LISP_AFI_IPV6 H"
    and "inet2lispafi H (LISP_AFI_LCAF H) = LISP_AFI_LCAF H"
  using assms by (simp_all add: family_labels_distinct_def inet2lispafi_def)

lemma uint_u16_of_int: "0 \<le> v \<Longrightarrow> v < 65536 \<Longrightarrow> uint (word_of_int v :: u16) = v"
  by (simp add: uint_word_of_int take_bit_int_eq_self)

text \<open>
  C4.  The two AFI translations are mutually inverse on the defined tags: a protocol AFI
  among no-address, IP, IPv6 and LCAF, translated to a host family by
  \<^verbatim>\<open>lisp2inetafi\<close> and back by \<^verbatim>\<open>inet2lispafi\<close>, is itself again; a host family
  among unspecified, IPv4, IPv6 and LCAF, translated to a protocol AFI (a 16-bit value)
  and back, is itself again; and the unspecified family maps to the no-address AFI.
\<close>

theorem afi_translation_inverse:
  assumes "afi_labels_distinct H" and "family_labels_distinct H" and "afi_fits_u16 H"
  shows "(\<forall>t. uint t \<in> {LISP_AFI_NO_ADDR H, LISP_AFI_IP H, LISP_AFI_IPV6 H, LISP_AFI_LCAF H} \<longrightarrow>
            inet2lispafi H (lisp2inetafi H t) = uint t) \<and>
         (\<forall>f. f \<in> {AF_UNSPEC H, AF_INET H, AF_INET6 H, LISP_AFI_LCAF H} \<longrightarrow>
            lisp2inetafi H (word_of_int (inet2lispafi H f)) = f) \<and>
         inet2lispafi H (AF_UNSPEC H) = LISP_AFI_NO_ADDR H"
proof (intro conjI allI impI)
  fix t :: u16
  assume "uint t \<in> {LISP_AFI_NO_ADDR H, LISP_AFI_IP H, LISP_AFI_IPV6 H, LISP_AFI_LCAF H}"
  then consider "uint t = LISP_AFI_NO_ADDR H" | "uint t = LISP_AFI_IP H"
    | "uint t = LISP_AFI_IPV6 H" | "uint t = LISP_AFI_LCAF H"
    by blast
  then show "inet2lispafi H (lisp2inetafi H t) = uint t"
    by cases
      (simp_all add: lisp2inetafi_on_labels [OF assms(1)] inet2lispafi_on_labels [OF assms(2)])
next
  fix f
  assume "f \<in> {AF_UNSPEC H, AF_INET H, AF_INET6 H, LISP_AFI_LCAF H}"
  then consider "f = AF_UNSPEC H" | "f = AF_INET H" | "f = AF_INET6 H" | "f = LISP_AFI_LCAF H"
    by blast
  moreover from assms(3) have
    "uint (word_of_int (LISP_AFI_NO_ADDR H) :: u16) = LISP_AFI_NO_ADDR H"
    "uint (word_of_int (LISP_AFI_IP H) :: u16) = LISP_AFI_IP H"
    "uint (word_of_int (LISP_AFI_IPV6 H) :: u16) = LISP_AFI_IPV6 H"
    "uint (word_of_int (LISP_AFI_LCAF H) :: u16) = LISP_AFI_LCAF H"
    by (simp_all add: afi_fits_u16_def uint_u16_of_int)
  ultimately show "lisp2inetafi H (word_of_int (inet2lispafi H f)) = f"
    by cases
      (simp_all add: lisp2inetafi_on_labels [OF assms(1)] inet2lispafi_on_labels [OF assms(2)])
next
  show "inet2lispafi H (AF_UNSPEC H) = LISP_AFI_NO_ADDR H"
    by (simp add: inet2lispafi_def)
qed

theorem afi_translation_inverse_witness:
  "inet2lispafi example_headers (lisp2inetafi example_headers 16387) = 16387 \<and>
   inet2lispafi example_headers (lisp2inetafi example_headers 2) = 2 \<and>
   lisp2inetafi example_headers (word_of_int (inet2lispafi example_headers 10)) = 10 \<and>
   lisp2inetafi example_headers (word_of_int (inet2lispafi example_headers 2)) = 2 \<and>
   inet2lispafi example_headers 0 = 0"
  using afi_translation_inverse [OF example_headers_labels(1,2,4)]
  by (simp add: example_headers_def lisp2inetafi_def inet2lispafi_def)

text \<open>
  C10.  For a host family outside the recognised ones (unspecified, IPv4, IPv6, LCAF),
  \<^verbatim>\<open>inet2lispafi\<close> returns 0.  With the no-address AFI numbered 0, as the wire format
  numbers it, that is the value returned for the unspecified family: the return value
  does not tell an unknown family from the unspecified one.
\<close>

theorem inet2lispafi_unknown_is_no_addr:
  assumes "f \<notin> {AF_UNSPEC H, AF_INET H, AF_INET6 H, LISP_AFI_LCAF H}"
    and "LISP_AFI_NO_ADDR H = 0"
  shows "inet2lispafi H f = 0 \<and> inet2lispafi H f = LISP_AFI_NO_ADDR H \<and>
         inet2lispafi H f = inet2lispafi H (AF_UNSPEC H)"
  using assms by (simp add: inet2lispafi_def)

theorem inet2lispafi_unknown_is_no_addr_witness:
  "inet2lispafi example_headers 7 = 0 \<and>
   inet2lispafi example_headers 7 = LISP_AFI_NO_ADDR example_headers \<and>
   inet2lispafi example_headers 7 = inet2lispafi example_headers (AF_UNSPEC example_headers)"
  using inet2lispafi_unknown_is_no_addr [of 7 example_headers]
  by (simp add: example_headers_def)

subsection \<open>Comparison\<close>

text \<open>
  C6.  \<^verbatim>\<open>compare_lisp_addr_t\<close> returns one of four values: -1 (different family),
  0 (equal), 1 (the first is greater) or 2 (the second is greater); and for two
  addresses of different families, such as an IPv4 and an IPv6 address, it returns -1,
  never 0, 1 or 2.
\<close>

theorem compare_lisp_addr_t_outcomes:
  "compare_lisp_addr_t H p q \<in> {- 1, 0, 1, 2} \<and>
   (\<forall>x y. afi x \<noteq> afi y \<longrightarrow> compare_lisp_addr_t H (Some x) (Some y) = - 1) \<and>
   (\<forall>x y. AF_INET H \<noteq> AF_INET6 H \<and> afi x = AF_INET H \<and> afi y = AF_INET6 H \<longrightarrow>
      compare_lisp_addr_t H (Some x) (Some y) = - 1 \<and>
      compare_lisp_addr_t H (Some y) (Some x) = - 1)"
  by (auto simp: compare_lisp_addr_t_def cmp_outcome_def split: option.splits)

theorem compare_lisp_addr_t_outcomes_witness:
  "compare_lisp_addr_t example_headers
     (Some \<lparr>afi = 2, address = [10, 0, 0, 1, 0, 0, 0, 0, 0, 0, 0, 0, 0, 0, 0, 0]\<rparr>)
     (Some \<lparr>afi = 10, address = [10, 0, 0, 1, 0, 0, 0, 0, 0, 0, 0, 0, 0, 0, 0, 0]\<rparr>) = - 1 \<and>
   compare_lisp_addr_t example_headers
     (Some \<lparr>afi = 2, address = [10, 0, 0, 1, 0, 0, 0, 0, 0, 0, 0, 0, 0, 0, 0, 0]\<rparr>)
     (Some \<lparr>afi = 2, address = [10, 0, 0, 1, 0, 0, 0, 0, 0, 0, 0, 0, 0, 0, 0, 0]\<rparr>) = 0 \<and>
   compare_lisp_addr_t example_headers
     (Some \<lparr>afi = 2, address = [10, 0, 0, 2, 0, 0, 0, 0, 0, 0, 0, 0, 0, 0, 0, 0]\<rparr>)
     (Some \<lparr>afi = 2, address = [10, 0, 0, 1, 0, 0, 0, 0, 0, 0, 0, 0, 0, 0, 0, 0]\<rparr>) = 1 \<and>
   compare_lisp_addr_t example_headers
     (Some \<lparr>afi = 2, address = [10, 0, 0, 1, 0, 0, 0, 0, 0, 0, 0, 0, 0, 0, 0, 0]\<rparr>)
     (Some \<lparr>afi = 2, address = [10, 0, 0, 2, 0, 0, 0, 0, 0, 0, 0, 0, 0, 0, 0, 0]\<rparr>) = 2"
  using compare_lisp_addr_t_outcomes [of example_headers
      "Some \<lparr>afi = 2, address = [10, 0, 0, 1, 0, 0, 0, 0, 0, 0, 0, 0, 0, 0, 0, 0]\<rparr>"
      "Some \<lparr>afi = 10, address = [10, 0, 0, 1, 0, 0, 0, 0, 0, 0, 0, 0, 0, 0, 0, 0]\<rparr>"]
  by (simp add: compare_lisp_addr_t_def cmp_outcome_def example_headers_simps)

text \<open>
  C9.  When at least one argument of \<^verbatim>\<open>compare_lisp_addr_t\<close> is a null pointer the
  result is -1 whatever the other argument is, the value also returned for two addresses
  of different families: the return value does not tell a missing address from a
  comparison across families.
\<close>

theorem compare_lisp_addr_t_null:
  "compare_lisp_addr_t H None q = - 1 \<and> compare_lisp_addr_t H p None = - 1 \<and>
   (\<forall>x y. afi x \<noteq> afi y \<longrightarrow>
      compare_lisp_addr_t H (Some x) (Some y) = compare_lisp_addr_t H None q \<and>
      compare_lisp_addr_t H (Some x) (Some y) = compare_lisp_addr_t H p None)"
  by (auto simp: compare_lisp_addr_t_def split: option.splits)

theorem compare_lisp_addr_t_null_witness:
  "compare_lisp_addr_t example_headers None
     (Some \<lparr>afi = 2, address = [10, 0, 0, 1, 0, 0, 0, 0, 0, 0, 0, 0, 0, 0, 0, 0]\<rparr>) = - 1 \<and>
   compare_lisp_addr_t example_headers
     (Some \<lparr>afi = 2, address = [10, 0, 0, 1, 0, 0, 0, 0, 0, 0, 0, 0, 0, 0, 0, 0]\<rparr>) None = - 1 \<and>
   compare_lisp_addr_t example_headers None None = - 1 \<and>
   compare_lisp_addr_t example_headers
     (Some \<lparr>afi = 2, address = [10, 0, 0, 1, 0, 0, 0, 0, 0, 0, 0, 0, 0, 0, 0, 0]\<rparr>)
     (Some \<lparr>afi = 10, address = [10, 0, 0, 1, 0, 0, 0, 0, 0, 0, 0, 0, 0, 0, 0, 0]\<rparr>) = - 1"
  using compare_lisp_addr_t_null [of example_headers
      "Some \<lparr>afi = 2, address = [10, 0, 0, 1, 0, 0, 0, 0, 0, 0, 0, 0, 0, 0, 0, 0]\<rparr>"
      "Some \<lparr>afi = 2, address = [10, 0, 0, 1, 0, 0, 0, 0, 0, 0, 0, 0, 0, 0, 0, 0]\<rparr>"]
  by (simp add: compare_lisp_addr_t_def cmp_outcome_def example_headers_simps)

subsection \<open>Control message dispatch\<close>

text \<open>
  C5.  For a received control message (the socket layer returned \<^verbatim>\<open>GOOD\<close>) whose
  type discriminator is Map-Register, \<^verbatim>\<open>process_lisp_ctr_msg\<close> calls no handler and
  returns \<^verbatim>\<open>GOOD\<close>; and for a message whose type discriminator is none of the seven
  defined tags it also calls no handler and returns \<^verbatim>\<open>GOOD\<close>, not an error.
\<close>

theorem process_lisp_ctr_msg_ignored:
  assumes "msg_labels_distinct H"
    and "get_packet_and_socket_inf C sock family w = ((GOOD H, packet, local_rloc, remote_port), w1)"
    and "packet \<noteq> []"
  shows "(msg_type packet = LISP_MAP_REGISTER H \<longrightarrow>
            process_lisp_ctr_msg H C sock family w = (GOOD H, [], w1)) \<and>
         (msg_type packet \<notin> {LISP_MAP_REQUEST H, LISP_MAP_REPLY H, LISP_MAP_REGISTER H,
              LISP_MAP_NOTIFY H, LISP_MAP_REFERRAL H, LISP_INFO_NAT H,
              LISP_ENCAP_CONTROL_TYPE H} \<longrightarrow>
            process_lisp_ctr_msg H C sock family w = (GOOD H, [], w1))"
proof (intro conjI impI)
  assume "msg_type packet = LISP_MAP_REGISTER H"
  with assms(1,2) show "process_lisp_ctr_msg H C sock family w = (GOOD H, [], w1)"
    by (auto simp: process_lisp_ctr_msg_def msg_labels_distinct_def Let_def)
next
  assume "msg_type packet \<notin> {LISP_MAP_REQUEST H, LISP_MAP_REPLY H, LISP_MAP_REGISTER H,
    LISP_MAP_NOTIFY H, LISP_MAP_REFERRAL H, LISP_INFO_NAT H, LISP_ENCAP_CONTROL_TYPE H}"
  with assms(2) show "process_lisp_ctr_msg H C sock family w = (GOOD H, [], w1)"
    by (simp add: process_lisp_ctr_msg_def Let_def)
qed

theorem process_lisp_ctr_msg_ignored_witness:
  "process_lisp_ctr_msg example_headers (example_collaborators [0x30, 0, 0, 1]) 3 2 0 = (1, [], 0) \<and>
   process_lisp_ctr_msg example_headers (example_collaborators [0xF0, 0, 0, 1]) 3 2 0 = (1, [], 0) \<and>
   process_lisp_ctr_msg example_headers (example_collaborators [0x20, 0, 0, 1]) 3 2 0 =
     (0, [Process_map_reply [0x20, 0, 0, 1]], 1)"
proof -
  have r: "get_packet_and_socket_inf (example_collaborators p) 3 2 0 =
      ((GOOD example_headers, p, \<lparr>afi = 2, address = [10, 0, 0, 1] @ replicate 12 0\<rparr>, 4342), 0)" for p
    by (simp add: example_collaborators_def example_headers_def)
  have t: "msg_type [0x30, 0, 0, 1] = 3" "msg_type [0xF0, 0, 0, 1] = 15" "msg_type [0x20, 0, 0, 1] = 2"
    by (simp_all add: msg_type_def drop_bit_eq_div)
  have "process_lisp_ctr_msg example_headers (example_collaborators [0x30, 0, 0, 1]) 3 2 0 = (1, [], 0)"
    using process_lisp_ctr_msg_ignored [OF example_headers_labels(3) r, of "[0x30, 0, 0, 1]"]
    by (simp add: t example_headers_def)
  moreover
  have "process_lisp_ctr_msg example_headers (example_collaborators [0xF0, 0, 0, 1]) 3 2 0 = (1, [], 0)"
    using process_lisp_ctr_msg_ignored [OF example_headers_labels(3) r, of "[0xF0, 0, 0, 1]"]
    by (simp add: t example_headers_def)
  moreover
  have "process_lisp_ctr_msg example_headers (example_collaborators [0x20, 0, 0, 1]) 3 2 0 =
     (0, [Process_map_reply [0x20, 0, 0, 1]], 1)"
    by (simp add: process_lisp_ctr_msg_def call_handler_def example_collaborators_def
        example_headers_def t Let_def)
  ultimately show ?thesis by simp
qed

subsection \<open>Network address and containment\<close>

text \<open>
  C2.  For an IPv4 address and a prefix length in \<open>[0, 32]\<close>, \<^verbatim>\<open>get_network_address\<close>
  returns the address, read in host order, ANDed with the 32-bit mask whose top
  \<open>len\<close> bits are set, and stored back in network order; for length 0 the mask is
  all zero and no shift is undefined.  For an IPv6 address and a prefix length in
  \<open>[0, 128]\<close> it masks the four 32-bit words of the address: the first \<open>len div 32\<close>
  words with all bits, the word with index \<open>len div 32\<close> with its top
  \<open>len mod 32\<close> bits when \<open>len mod 32\<close> is not 0, every later word with no bit.
  In particular the network address of 192.168.1.130/24 is 192.168.1.0 and that of
  2001:db8::1234/32 is 2001:db8::.
\<close>

theorem get_network_address_masks:
  assumes "AF_INET H \<noteq> AF_INET6 H"
  shows
   "(afi a = AF_INET H \<and> 0 \<le> len \<and> len \<le> 32 \<longrightarrow>
       get_network_address H a len =
         Some \<lparr>afi = AF_INET H,
               address = stored32 H (htonl H (ntohl H (load32 H (address a) 0) AND
                           spec_mask32 (nat len))) @ replicate 12 0\<rparr>) \<and>
    spec_mask32 0 = 0 \<and>
    (afi a = AF_INET6 H \<and> 0 \<le> len \<and> len \<le> 128 \<longrightarrow>
       get_network_address H a len =
         Some \<lparr>afi = AF_INET6 H,
               address = concat (map (\<lambda>i.
                  stored32 H (htonl H (ntohl H (load32 H (address a) (4 * i)) AND
                    spec_mask_v6 (nat len) i))) [0..<4])\<rparr>) \<and>
    get_network_address H \<lparr>afi = AF_INET H, address = [192, 168, 1, 130] @ replicate 12 0\<rparr> 24 =
      Some \<lparr>afi = AF_INET H, address = [192, 168, 1, 0] @ replicate 12 0\<rparr> \<and>
    get_network_address H
      \<lparr>afi = AF_INET6 H,
        address = [0x20, 0x01, 0x0d, 0xb8, 0, 0, 0, 0, 0, 0, 0, 0, 0, 0, 0x12, 0x34]\<rparr> 32 =
      Some \<lparr>afi = AF_INET6 H, address = [0x20, 0x01, 0x0d, 0xb8] @ replicate 12 0\<rparr>"
proof (intro conjI impI)
  assume "afi a = AF_INET H \<and> 0 \<le> len \<and> len \<le> 32"
  then show "get_network_address H a len =
         Some \<lparr>afi = AF_INET H,
               address = stored32 H (htonl H (ntohl H (load32 H (address a) 0) AND
                           spec_mask32 (nat len))) @ replicate 12 0\<rparr>"
    by (simp add: get_network_address_def get_network_address_v4_eq)
next
  show "spec_mask32 0 = 0" by (rule spec_mask32_0)
next
  assume "afi a = AF_INET6 H \<and> 0 \<le> len \<and> len \<le> 128"
  with assms show "get_network_address H a len =
         Some \<lparr>afi = AF_INET6 H,
               address = concat (map (\<lambda>i.
                  stored32 H (htonl H (ntohl H (load32 H (address a) (4 * i)) AND
                    spec_mask_v6 (nat len) i))) [0..<4])\<rparr>"
    by (simp add: get_network_address_def get_network_address_v6_eq)
next
  have "bytes_of32 (word_of_bytes [192, 168, 1, 130] AND spec_mask32 24) = [192, 168, 1, 0]"
    by (simp add: bytes_of32_def word_of_bytes_def spec_mask32_def mask_eq_exp_minus_1
        not_eq_complement)
  then show "get_network_address H \<lparr>afi = AF_INET H, address = [192, 168, 1, 130] @ replicate 12 0\<rparr> 24 =
      Some \<lparr>afi = AF_INET H, address = [192, 168, 1, 0] @ replicate 12 0\<rparr>"
    by (simp add: get_network_address_def get_network_address_v4_eq wire_and_mask)
next
  have "bytes_of32 (word_of_bytes [0x20, 0x01, 0x0d, 0xb8]) = [0x20, 0x01, 0x0d, 0xb8]"
    and "bytes_of32 0 = [0, 0, 0, 0]"
    by (simp_all add: bytes_of32_def word_of_bytes_def)
  with assms show "get_network_address H
      \<lparr>afi = AF_INET6 H,
        address = [0x20, 0x01, 0x0d, 0xb8, 0, 0, 0, 0, 0, 0, 0, 0, 0, 0, 0x12, 0x34]\<rparr> 32 =
      Some \<lparr>afi = AF_INET6 H, address = [0x20, 0x01, 0x0d, 0xb8] @ replicate 12 0\<rparr>"
    by (simp add: get_network_address_def get_network_address_v6_eq stored32_htonl
        ntohl_load32 upt_0_4 spec_mask_v6_def replicate_12)
qed

theorem get_network_address_masks_witness:
  "get_network_address example_headers \<lparr>afi = 2, address = [10, 1, 2, 3] @ replicate 12 0\<rparr> 8 =
     Some \<lparr>afi = 2, address = [10, 0, 0, 0] @ replicate 12 0\<rparr> \<and>
   get_network_address example_headers \<lparr>afi = 2, address = [10, 1, 2, 3] @ replicate 12 0\<rparr> 0 =
     Some \<lparr>afi = 2, address = [0, 0, 0, 0] @ replicate 12 0\<rparr> \<and>
   get_network_address example_headers
     \<lparr>afi = 10, address = [0x20, 0x01, 0x0d, 0xb8, 0x12, 0x34, 0x56, 0x78,
                            0x9a, 0xbc, 0xde, 0xf0, 0x11, 0x22, 0x33, 0x44]\<rparr> 40 =
     Some \<lparr>afi = 10, address = [0x20, 0x01, 0x0d, 0xb8, 0x12, 0, 0, 0, 0, 0, 0, 0, 0, 0, 0, 0]\<rparr>"
proof -
  let ?a = "\<lparr>afi = 2, address = [10, 1, 2, 3] @ replicate 12 0\<rparr>"
  let ?b = "\<lparr>afi = 10, address = [0x20, 0x01, 0x0d, 0xb8, 0x12, 0x34, 0x56, 0x78,
                            0x9a, 0xbc, 0xde, 0xf0, 0x11, 0x22, 0x33, 0x44]\<rparr>"
  have m: "spec_mask32 8 = 0xFF000000" "spec_mask32 0 = 0"
    by (simp_all add: spec_mask32_def mask_eq_exp_minus_1 not_eq_complement)
  have b: "bytes_of32 (word_of_bytes [10, 1, 2, 3] AND 0xFF000000) = [10, 0, 0, 0]"
    "bytes_of32 0 = [0, 0, 0, 0]"
    "bytes_of32 (word_of_bytes [0x20, 0x01, 0x0d, 0xb8]) = [0x20, 0x01, 0x0d, 0xb8]"
    "bytes_of32 (word_of_bytes [0x12, 0x34, 0x56, 0x78] AND 0xFF000000) = [0x12, 0, 0, 0]"
    by (simp_all add: bytes_of32_def word_of_bytes_def)
  have h8: "afi ?a = AF_INET example_headers \<and> (0::int) \<le> 8 \<and> (8::int) \<le> 32"
    and h0: "afi ?a = AF_INET example_headers \<and> (0::int) \<le> 0 \<and> (0::int) \<le> 32"
    and h40: "afi ?b = AF_INET6 example_headers \<and> (0::int) \<le> 40 \<and> (40::int) \<le> 128"
    by (simp_all add: example_headers_simps)
  have "get_network_address example_headers ?a 8 =
      Some \<lparr>afi = 2, address = [10, 0, 0, 0] @ replicate 12 0\<rparr>"
    using get_network_address_masks [OF example_families, of ?a 8, THEN conjunct1, rule_format, OF h8]
    by (simp add: example_headers_simps ntohl_load32 stored32_htonl m b)
  moreover
  have "get_network_address example_headers ?a 0 =
      Some \<lparr>afi = 2, address = [0, 0, 0, 0] @ replicate 12 0\<rparr>"
    using get_network_address_masks [OF example_families, of ?a 0, THEN conjunct1, rule_format, OF h0]
    by (simp add: example_headers_simps ntohl_load32 stored32_htonl m b)
  moreover
  have "get_network_address example_headers ?b 40 =
     Some \<lparr>afi = 10, address = [0x20, 0x01, 0x0d, 0xb8, 0x12, 0, 0, 0, 0, 0, 0, 0, 0, 0, 0, 0]\<rparr>"
    using get_network_address_masks [OF example_families, of ?b 40,
        THEN conjunct2, THEN conjunct2, THEN conjunct1, rule_format, OF h40]
    by (simp add: example_headers_simps ntohl_load32 stored32_htonl m b upt_0_4 spec_mask_v6_def)
  ultimately show ?thesis by (intro conjI)
qed

text \<open>
  Two supporting facts.  For a family that is neither IPv4 nor IPv6 the function returns
  false whatever the prefixes are; and for IPv4 the network addresses of two addresses at
  a length are equal exactly when the addresses, read in network order, agree on their
  top bits.
\<close>

lemma is_prefix_b_part_of_a_other_family:
  assumes "family_labels_distinct H" and "afi a \<noteq> AF_INET H" and "afi a \<noteq> AF_INET6 H"
  shows "is_prefix_b_part_of_a H a la b lb = Some (FALSE H)"
proof -
  from assms(1) have "AF_UNSPEC H \<noteq> AF_INET H" "AF_UNSPEC H \<noteq> AF_INET6 H"
    by (auto simp: family_labels_distinct_def)
  with assms(2,3) show ?thesis
    by (simp add: is_prefix_b_part_of_a_def get_network_address_def compare_lisp_addr_t_def)
qed

lemma drop_bit_and_spec_mask32:
  assumes "n \<le> 32"
  shows "(x AND spec_mask32 n = y AND spec_mask32 n) \<longleftrightarrow> drop_bit (32 - n) x = drop_bit (32 - n) y"
proof
  assume eq: "x AND spec_mask32 n = y AND spec_mask32 n"
  show "drop_bit (32 - n) x = drop_bit (32 - n) y"
  proof (rule bit_word_eqI)
    fix i assume "i < LENGTH(32)"
    have "bit (x AND spec_mask32 n) (32 - n + i) = bit (y AND spec_mask32 n) (32 - n + i)"
      using eq by simp
    then show "bit (drop_bit (32 - n) x) i = bit (drop_bit (32 - n) y) i"
      by (auto simp: bit_simps bit_spec_mask32 dest: bit_imp_le_length)
  qed
next
  assume eq: "drop_bit (32 - n) x = drop_bit (32 - n) y"
  show "x AND spec_mask32 n = y AND spec_mask32 n"
  proof (rule bit_word_eqI)
    fix i assume i: "i < LENGTH(32)"
    show "bit (x AND spec_mask32 n) i = bit (y AND spec_mask32 n) i"
    proof (cases "32 - n \<le> i")
      case True
      have "bit (drop_bit (32 - n) x) (i - (32 - n)) = bit (drop_bit (32 - n) y) (i - (32 - n))"
        using eq by simp
      with True show ?thesis by (simp add: bit_simps bit_spec_mask32)
    next
      case False
      then show ?thesis by (simp add: bit_simps bit_spec_mask32)
    qed
  qed
qed

lemma bytes_of32_inject: "bytes_of32 x = bytes_of32 y \<longleftrightarrow> x = y"
  by (metis word_of_bytes_bytes_of32)

lemma get_network_address_v4_same:
  assumes "afi a = AF_INET H" and "afi b = AF_INET H" and "0 \<le> la" and "la \<le> 32"
    and "4 \<le> length (address a)" and "4 \<le> length (address b)"
  shows "get_network_address H b la = get_network_address H a la \<longleftrightarrow>
    drop_bit (32 - nat la) (word_of_bytes (take 4 (address a)) :: u32) =
    drop_bit (32 - nat la) (word_of_bytes (take 4 (address b)) :: u32)"
proof -
  from assms(3,4) have n: "nat la \<le> 32" by simp
  have "get_network_address H b la = get_network_address H a la \<longleftrightarrow>
    (word_of_bytes (take 4 (address b)) :: u32) AND spec_mask32 (nat la) =
    word_of_bytes (take 4 (address a)) AND spec_mask32 (nat la)"
    using assms
    by (simp add: get_network_address_def get_network_address_v4_eq ntohl_load32
        stored32_htonl bytes_of32_inject)
  also have "\<dots> \<longleftrightarrow> drop_bit (32 - nat la) (word_of_bytes (take 4 (address b)) :: u32) =
    drop_bit (32 - nat la) (word_of_bytes (take 4 (address a)) :: u32)"
    by (rule drop_bit_and_spec_mask32 [OF n])
  finally show ?thesis by auto
qed

text \<open>
  The network addresses of two addresses of one family at a length are equal exactly
  when the first bits of the two addresses are: the masks of the code keep the bits
  the truncation of the specification keeps.
\<close>

lemma upt_32: "[0..<32] = [0,1,2,3,4,5,6,7,8,9,10,11,12,13,14,15,16,17,18,19,20,21,22,23,24,25,26,27,28,29,30,31]"
  by (simp add: upt_rec)

lemma wire_bits_word:
  "wire_bits [b0, b1, b2, b3] = word_bits (word_of_bytes [b0, b1, b2, b3])"
  by (auto simp: wire_bits_def byte_bits_def word_bits_def upt_32 word_of_bytes_def bit_simps
      dest: bit_imp_le_length)

lemma length_word_bits [simp]: "length (word_bits w) = 32"
  by (simp add: word_bits_def)

lemma take_word_bits_eq:
  assumes "n \<le> 32"
  shows "take n (word_bits x) = take n (word_bits y) \<longleftrightarrow>
         x AND spec_mask32 n = y AND spec_mask32 n"
proof
  assume eq: "take n (word_bits x) = take n (word_bits y)"
  show "x AND spec_mask32 n = y AND spec_mask32 n"
  proof (rule bit_word_eqI)
    fix j assume j: "j < LENGTH(32)"
    show "bit (x AND spec_mask32 n) j = bit (y AND spec_mask32 n) j"
    proof (cases "32 - n \<le> j")
      case True
      with j assms have i: "31 - j < n" "31 - j < 32" by simp_all
      from eq have "take n (word_bits x) ! (31 - j) = take n (word_bits y) ! (31 - j)" by simp
      with i j have "bit x j = bit y j"
        by (simp add: word_bits_def)
      then show ?thesis by (simp add: bit_simps)
    next
      case False
      then show ?thesis by (simp add: bit_simps bit_spec_mask32)
    qed
  qed
next
  assume eq: "x AND spec_mask32 n = y AND spec_mask32 n"
  show "take n (word_bits x) = take n (word_bits y)"
  proof (rule nth_equalityI)
    show "length (take n (word_bits x)) = length (take n (word_bits y))" by simp
  next
    fix i assume "i < length (take n (word_bits x))"
    with assms have i: "i < n" "i < 32" by simp_all
    have "bit (x AND spec_mask32 n) (31 - i) = bit (y AND spec_mask32 n) (31 - i)"
      using eq by simp
    moreover from i assms have "32 - n \<le> 31 - i" "31 - i < 32" by simp_all
    ultimately have "bit x (31 - i) = bit y (31 - i)"
      by (simp add: bit_simps bit_spec_mask32)
    with i show "take n (word_bits x) ! i = take n (word_bits y) ! i"
      by (simp add: word_bits_def)
  qed
qed

lemma take_chunk:
  assumes "length c = 32" and "length d = 32"
  shows "take n (c @ cs) = take n (d @ ds) \<longleftrightarrow>
         take (min 32 n) c = take (min 32 n) d \<and> take (n - 32) cs = take (n - 32) ds"
proof -
  have "take n c = take (min 32 n) c" "take n d = take (min 32 n) d"
    using assms by (cases "n \<le> 32"; simp add: min_def)+
  moreover have "length (take (min 32 n) c) = length (take (min 32 n) d)"
    using assms by simp
  ultimately show ?thesis
    using assms by (simp add: append_eq_append_conv)
qed

lemma spec_mask_v6_as_mask32: "spec_mask_v6 n i = spec_mask32 (min 32 (n - 32 * i))"
proof -
  have full: "spec_mask32 32 = - 1" by (simp add: spec_mask32_def)
  consider "i < n div 32" | "i = n div 32" | "n div 32 < i" by linarith
  then show ?thesis
  proof cases
    case 1
    then have "32 * i + 32 \<le> n" by simp
    then have "min 32 (n - 32 * i) = 32" by simp
    with 1 show ?thesis by (simp add: spec_mask_v6_def full)
  next
    case 2
    then have "n - 32 * i = n mod 32"
      by (simp add: minus_mult_div_eq_mod)
    then have "min 32 (n - 32 * i) = n mod 32" by simp
    with 2 show ?thesis by (simp add: spec_mask_v6_def spec_mask32_0)
  next
    case 3
    then have "n < 32 * i"
      by (metis div_less_iff_less_mult mult.commute zero_less_numeral)
    then have "min 32 (n - 32 * i) = 0" by simp
    with 3 show ?thesis by (simp add: spec_mask_v6_def spec_mask32_0)
  qed
qed

lemma wire_bits_append: "wire_bits (xs @ ys) = wire_bits xs @ wire_bits ys"
  by (simp add: wire_bits_def)

lemma wire_bits_word_list:
  "length bs = 4 \<Longrightarrow> wire_bits bs = word_bits (word_of_bytes bs)"
  using list4 [of bs] by (auto simp: wire_bits_word)

lemma split16:
  assumes "length m = 16"
  shows "m = take 4 m @ take 4 (drop 4 m) @ take 4 (drop 8 m) @ take 4 (drop 12 m)"
proof -
  have "drop 12 m = take 4 (drop 12 m)" using assms by simp
  moreover have "drop 8 m = take 4 (drop 8 m) @ drop 12 m"
    using append_take_drop_id [of 4 "drop 8 m"] by simp
  moreover have "drop 4 m = take 4 (drop 4 m) @ drop 8 m"
    using append_take_drop_id [of 4 "drop 4 m"] by simp
  moreover have "m = take 4 m @ drop 4 m" by simp
  ultimately show ?thesis by metis
qed

lemma same_network_v4:
  assumes "afi a = AF_INET H" and "afi b = AF_INET H" and "0 \<le> la" and "la \<le> 32"
    and "addr_sized a" and "addr_sized b"
  shows "get_network_address H b la = get_network_address H a la \<longleftrightarrow>
         spec_truncate H b la = spec_truncate H a la"
proof -
  from assms(3,4) have n: "nat la \<le> 32" by simp
  from assms(5,6) have len: "4 \<le> length (address a)" "4 \<le> length (address b)"
    "length (take 4 (address a)) = 4" "length (take 4 (address b)) = 4"
    by (simp_all add: addr_sized_def)
  have "get_network_address H b la = get_network_address H a la \<longleftrightarrow>
    (word_of_bytes (take 4 (address b)) :: u32) AND spec_mask32 (nat la) =
    word_of_bytes (take 4 (address a)) AND spec_mask32 (nat la)"
    using assms(1-4) len(1,2)
    by (simp add: get_network_address_def get_network_address_v4_eq ntohl_load32
        stored32_htonl bytes_of32_inject)
  also have "\<dots> \<longleftrightarrow> take (nat la) (word_bits (word_of_bytes (take 4 (address b)))) =
    take (nat la) (word_bits (word_of_bytes (take 4 (address a))))"
    by (rule take_word_bits_eq [OF n, symmetric])
  also have "\<dots> \<longleftrightarrow> spec_truncate H b la = spec_truncate H a la"
    using assms(1,2) len(3,4)
    by (simp add: spec_truncate_def family_bytes_def wire_bits_word_list)
  finally show ?thesis .
qed

lemma v6_network_bytes:
  assumes "length m = 16"
  shows "concat (map (\<lambda>i. stored32 H (htonl H (ntohl H (load32 H m (4 * i)) AND k i))) [0..<4]) =
    bytes_of32 (word_of_bytes (take 4 m) AND k 0) @
    bytes_of32 (word_of_bytes (take 4 (drop 4 m)) AND k 1) @
    bytes_of32 (word_of_bytes (take 4 (drop 8 m)) AND k 2) @
    bytes_of32 (word_of_bytes (take 4 (drop 12 m)) AND k 3)"
  using assms by (simp add: upt_0_4 ntohl_load32 stored32_htonl)

lemma bytes4_append_eq:
  "bytes_of32 x @ xs = bytes_of32 y @ ys \<longleftrightarrow> x = y \<and> xs = ys"
  by (simp add: append_eq_append_conv bytes_of32_inject)

lemma wire_bits_16:
  assumes "length m = 16"
  shows "wire_bits m =
    word_bits (word_of_bytes (take 4 m)) @ word_bits (word_of_bytes (take 4 (drop 4 m))) @
    word_bits (word_of_bytes (take 4 (drop 8 m))) @ word_bits (word_of_bytes (take 4 (drop 12 m)))"
proof -
  have "wire_bits m = wire_bits (take 4 m @ take 4 (drop 4 m) @ take 4 (drop 8 m) @ take 4 (drop 12 m))"
    using split16 [OF assms] by simp
  also have "\<dots> = wire_bits (take 4 m) @ wire_bits (take 4 (drop 4 m)) @
      wire_bits (take 4 (drop 8 m)) @ wire_bits (take 4 (drop 12 m))"
    by (simp only: wire_bits_append)
  finally show ?thesis
    using assms by (simp add: wire_bits_word_list)
qed

lemma take_word_bits_min: "take k (word_bits w) = take (min 32 k) (word_bits w)"
  by (cases "k \<le> 32") (simp_all add: min_def)

lemma take_four_chunks:
  assumes "n \<le> 128"
  shows "take n (word_bits w0 @ word_bits w1 @ word_bits w2 @ word_bits w3) =
         take n (word_bits v0 @ word_bits v1 @ word_bits v2 @ word_bits v3) \<longleftrightarrow>
         w0 AND spec_mask_v6 n 0 = v0 AND spec_mask_v6 n 0 \<and>
         w1 AND spec_mask_v6 n 1 = v1 AND spec_mask_v6 n 1 \<and>
         w2 AND spec_mask_v6 n 2 = v2 AND spec_mask_v6 n 2 \<and>
         w3 AND spec_mask_v6 n 3 = v3 AND spec_mask_v6 n 3"
proof -
  have s0: "take n (word_bits w0 @ word_bits w1 @ word_bits w2 @ word_bits w3) =
         take n (word_bits v0 @ word_bits v1 @ word_bits v2 @ word_bits v3) \<longleftrightarrow>
        take (min 32 n) (word_bits w0) = take (min 32 n) (word_bits v0) \<and>
        take (n - 32) (word_bits w1 @ word_bits w2 @ word_bits w3) =
          take (n - 32) (word_bits v1 @ word_bits v2 @ word_bits v3)"
    by (rule take_chunk) simp_all
  have s1: "take (n - 32) (word_bits w1 @ word_bits w2 @ word_bits w3) =
          take (n - 32) (word_bits v1 @ word_bits v2 @ word_bits v3) \<longleftrightarrow>
        take (min 32 (n - 32)) (word_bits w1) = take (min 32 (n - 32)) (word_bits v1) \<and>
        take (n - 64) (word_bits w2 @ word_bits w3) =
          take (n - 64) (word_bits v2 @ word_bits v3)"
    using take_chunk [of "word_bits w1" "word_bits v1" "n - 32" "word_bits w2 @ word_bits w3"
        "word_bits v2 @ word_bits v3"]
    by simp
  have s2: "take (n - 64) (word_bits w2 @ word_bits w3) =
          take (n - 64) (word_bits v2 @ word_bits v3) \<longleftrightarrow>
        take (min 32 (n - 64)) (word_bits w2) = take (min 32 (n - 64)) (word_bits v2) \<and>
        take (n - 96) (word_bits w3) = take (n - 96) (word_bits v3)"
    using take_chunk [of "word_bits w2" "word_bits v2" "n - 64" "word_bits w3" "word_bits v3"]
    by simp
  have s3: "take (n - 96) (word_bits w3) = take (n - 96) (word_bits v3) \<longleftrightarrow>
      take (min 32 (n - 96)) (word_bits w3) = take (min 32 (n - 96)) (word_bits v3)"
    using take_word_bits_min [of "n - 96" w3] take_word_bits_min [of "n - 96" v3]
    by simp
  have m: "min 32 n \<le> 32" "min 32 (n - 32) \<le> 32" "min 32 (n - 64) \<le> 32" "min 32 (n - 96) \<le> 32"
    by simp_all
  have "take n (word_bits w0 @ word_bits w1 @ word_bits w2 @ word_bits w3) =
         take n (word_bits v0 @ word_bits v1 @ word_bits v2 @ word_bits v3) \<longleftrightarrow>
        take (min 32 n) (word_bits w0) = take (min 32 n) (word_bits v0) \<and>
        take (min 32 (n - 32)) (word_bits w1) = take (min 32 (n - 32)) (word_bits v1) \<and>
        take (min 32 (n - 64)) (word_bits w2) = take (min 32 (n - 64)) (word_bits v2) \<and>
        take (min 32 (n - 96)) (word_bits w3) = take (min 32 (n - 96)) (word_bits v3)"
    unfolding s0 s1 s2 s3 ..
  also have "\<dots> \<longleftrightarrow>
         w0 AND spec_mask_v6 n 0 = v0 AND spec_mask_v6 n 0 \<and>
         w1 AND spec_mask_v6 n 1 = v1 AND spec_mask_v6 n 1 \<and>
         w2 AND spec_mask_v6 n 2 = v2 AND spec_mask_v6 n 2 \<and>
         w3 AND spec_mask_v6 n 3 = v3 AND spec_mask_v6 n 3"
    unfolding take_word_bits_eq [OF m(1)] take_word_bits_eq [OF m(2)]
      take_word_bits_eq [OF m(3)] take_word_bits_eq [OF m(4)]
    by (simp add: spec_mask_v6_as_mask32)
  finally show ?thesis .
qed

lemma same_network_v6:
  assumes "AF_INET H \<noteq> AF_INET6 H"
    and "afi a = AF_INET6 H" and "afi b = AF_INET6 H" and "0 \<le> la" and "la \<le> 128"
    and "addr_sized a" and "addr_sized b"
  shows "get_network_address H b la = get_network_address H a la \<longleftrightarrow>
         spec_truncate H b la = spec_truncate H a la"
proof -
  from assms(4,5) have n: "nat la \<le> 128" by simp
  from assms(6,7) have len: "length (address a) = 16" "length (address b) = 16"
    by (simp_all add: addr_sized_def)
  have "get_network_address H b la = get_network_address H a la \<longleftrightarrow>
    (word_of_bytes (take 4 (address b)) :: u32) AND spec_mask_v6 (nat la) 0 =
       word_of_bytes (take 4 (address a)) AND spec_mask_v6 (nat la) 0 \<and>
    (word_of_bytes (take 4 (drop 4 (address b))) :: u32) AND spec_mask_v6 (nat la) 1 =
       word_of_bytes (take 4 (drop 4 (address a))) AND spec_mask_v6 (nat la) 1 \<and>
    (word_of_bytes (take 4 (drop 8 (address b))) :: u32) AND spec_mask_v6 (nat la) 2 =
       word_of_bytes (take 4 (drop 8 (address a))) AND spec_mask_v6 (nat la) 2 \<and>
    (word_of_bytes (take 4 (drop 12 (address b))) :: u32) AND spec_mask_v6 (nat la) 3 =
       word_of_bytes (take 4 (drop 12 (address a))) AND spec_mask_v6 (nat la) 3"
    using assms(1-5)
    by (simp add: get_network_address_def get_network_address_v6_eq
        v6_network_bytes [OF len(1)] v6_network_bytes [OF len(2)] bytes4_append_eq
        bytes_of32_inject)
  also have "\<dots> \<longleftrightarrow> take (nat la) (wire_bits (address b)) = take (nat la) (wire_bits (address a))"
    by (simp only: wire_bits_16 [OF len(1)] wire_bits_16 [OF len(2)] take_four_chunks [OF n])
  also have "\<dots> \<longleftrightarrow> spec_truncate H b la = spec_truncate H a la"
    using assms(1-3) len by (simp add: spec_truncate_def family_bytes_def)
  finally show ?thesis .
qed

text \<open>
  C1.  \<^verbatim>\<open>is_prefix_b_part_of_a\<close> returns false when the families of the two
  addresses differ, and false when the length of a is greater than the length of b.
  Otherwise, for a prefix a that satisfies the invariant of prefixes, it returns true
  exactly when the network address of b at the length of a equals the network address of
  a at that length; in particular a prefix is part of itself.  For addresses held in the
  16 bytes of their storage this is the case exactly when b truncated to the length of a
  equals a truncated to that length, that is, when the first \<open>la\<close> bits of the two
  addresses in network order are the same, for IPv4 and for IPv6.
\<close>

theorem is_prefix_b_part_of_a_contained:
  assumes "AF_INET H \<noteq> AF_INET6 H"
  shows
   "(afi a \<noteq> afi b \<longrightarrow> is_prefix_b_part_of_a H a la b lb = Some (FALSE H)) \<and>
    (la > lb \<longrightarrow> is_prefix_b_part_of_a H a la b lb = Some (FALSE H)) \<and>
    (afi a = afi b \<and> la \<le> lb \<and> valid_prefix H a la \<longrightarrow>
       get_network_address H a la \<noteq> None \<and>
       is_prefix_b_part_of_a H a la b lb =
         Some (if get_network_address H b la = get_network_address H a la
               then TRUE H else FALSE H)) \<and>
    (valid_prefix H a la \<longrightarrow> is_prefix_b_part_of_a H a la a la = Some (TRUE H)) \<and>
    (afi a = afi b \<and> la \<le> lb \<and> valid_prefix H a la \<and> addr_sized a \<and> addr_sized b \<longrightarrow>
       is_prefix_b_part_of_a H a la b lb =
         Some (if spec_truncate H b la = spec_truncate H a la then TRUE H else FALSE H))"
proof -
  have contained: "get_network_address H x la \<noteq> None \<and>
       is_prefix_b_part_of_a H x la y lb =
         Some (if get_network_address H y la = get_network_address H x la
               then TRUE H else FALSE H)"
    if fam: "afi x = afi y" and le: "la \<le> lb" and ok: "valid_prefix H x la" for x y lb
  proof -
    from ok consider (v4) "afi x = AF_INET H" "0 \<le> la" "la \<le> 32"
      | (v6) "afi x = AF_INET6 H" "0 \<le> la" "la \<le> 128"
      by (auto simp: valid_prefix_def)
    then show ?thesis
    proof cases
      case v4
      with fam le show ?thesis
        by (simp add: is_prefix_b_part_of_a_def get_network_address_def
            get_network_address_v4_eq compare_lisp_addr_t_def cmp_outcome_def memcmp_eq_0_iff)
    next
      case v6
      with fam le assms show ?thesis
        by (simp add: is_prefix_b_part_of_a_def get_network_address_def
            get_network_address_v6_eq compare_lisp_addr_t_def cmp_outcome_def memcmp_eq_0_iff
            length_v6_bytes)
    qed
  qed
  have same_network: "get_network_address H b la = get_network_address H a la \<longleftrightarrow>
       spec_truncate H b la = spec_truncate H a la"
    if fam: "afi a = afi b" and ok: "valid_prefix H a la" and sa: "addr_sized a"
      and sb: "addr_sized b"
  proof -
    from ok consider (v4) "afi a = AF_INET H" "0 \<le> la" "la \<le> 32"
      | (v6) "afi a = AF_INET6 H" "0 \<le> la" "la \<le> 128"
      by (auto simp: valid_prefix_def)
    then show ?thesis
    proof cases
      case v4
      from v4(1) fam have "afi b = AF_INET H" by simp
      from v4(1) this v4(2,3) sa sb show ?thesis by (rule same_network_v4)
    next
      case v6
      from v6(1) fam have "afi b = AF_INET6 H" by simp
      from assms v6(1) this v6(2,3) sa sb show ?thesis by (rule same_network_v6)
    qed
  qed
  show ?thesis
  proof (intro conjI impI)
    assume "afi a \<noteq> afi b"
    then show "is_prefix_b_part_of_a H a la b lb = Some (FALSE H)"
      by (simp add: is_prefix_b_part_of_a_def)
  next
    assume "la > lb"
    then show "is_prefix_b_part_of_a H a la b lb = Some (FALSE H)"
      by (simp add: is_prefix_b_part_of_a_def)
  next
    assume h: "afi a = afi b \<and> la \<le> lb \<and> valid_prefix H a la"
    then show "get_network_address H a la \<noteq> None"
      using contained [of a b lb] by simp
    from h show "is_prefix_b_part_of_a H a la b lb =
         Some (if get_network_address H b la = get_network_address H a la
               then TRUE H else FALSE H)"
      using contained [of a b lb] by simp
  next
    assume "valid_prefix H a la"
    then show "is_prefix_b_part_of_a H a la a la = Some (TRUE H)"
      using contained [of a a la] by simp
  next
    assume h: "afi a = afi b \<and> la \<le> lb \<and> valid_prefix H a la \<and> addr_sized a \<and> addr_sized b"
    then have "is_prefix_b_part_of_a H a la b lb =
         Some (if get_network_address H b la = get_network_address H a la
               then TRUE H else FALSE H)"
      using contained [of a b lb] by simp
    moreover from h have "get_network_address H b la = get_network_address H a la \<longleftrightarrow>
       spec_truncate H b la = spec_truncate H a la"
      by (intro same_network) simp_all
    ultimately show "is_prefix_b_part_of_a H a la b lb =
         Some (if spec_truncate H b la = spec_truncate H a la then TRUE H else FALSE H)"
      by simp
  qed
qed

lemma example_bits:
  "byte_bits 0x20 = [False, False, True, False, False, False, False, False]"
  "byte_bits 0x01 = [False, False, False, False, False, False, False, True]"
  "byte_bits 0x0d = [False, False, False, False, True, True, False, True]"
  "byte_bits 0xb8 = [True, False, True, True, True, False, False, False]"
  "byte_bits 0xfe = [True, True, True, True, True, True, True, False]"
  "byte_bits 0x80 = [True, False, False, False, False, False, False, False]"
  "byte_bits 0x7f = [False, True, True, True, True, True, True, True]"
  "byte_bits 0xff = [True, True, True, True, True, True, True, True]"
  "byte_bits 0 = [False, False, False, False, False, False, False, False]"
  "byte_bits 10 = [False, False, False, False, True, False, True, False]"
  "byte_bits 11 = [False, False, False, False, True, False, True, True]"
  "byte_bits 2 = [False, False, False, False, False, False, True, False]"
  by (simp_all add: byte_bits_def bit_numeral_simps)

theorem is_prefix_b_part_of_a_contained_witness:
  "is_prefix_b_part_of_a example_headers
     \<lparr>afi = 2, address = [10, 0, 0, 0] @ replicate 12 0\<rparr> 8
     \<lparr>afi = 2, address = [10, 1, 2, 0] @ replicate 12 0\<rparr> 24 = Some 1 \<and>
   is_prefix_b_part_of_a example_headers
     \<lparr>afi = 2, address = [10, 0, 0, 0] @ replicate 12 0\<rparr> 8
     \<lparr>afi = 2, address = [11, 0, 0, 0] @ replicate 12 0\<rparr> 8 = Some 0 \<and>
   is_prefix_b_part_of_a example_headers
     \<lparr>afi = 2, address = [10, 0, 0, 0] @ replicate 12 0\<rparr> 8
     \<lparr>afi = 2, address = [10, 0, 0, 0] @ replicate 12 0\<rparr> 8 = Some 1 \<and>
   is_prefix_b_part_of_a example_headers
     \<lparr>afi = 2, address = [10, 1, 2, 0] @ replicate 12 0\<rparr> 24
     \<lparr>afi = 2, address = [10, 0, 0, 0] @ replicate 12 0\<rparr> 8 = Some 0 \<and>
   is_prefix_b_part_of_a example_headers
     \<lparr>afi = 2, address = [10, 0, 0, 0] @ replicate 12 0\<rparr> 8
     \<lparr>afi = 10, address = [10, 0, 0, 0] @ replicate 12 0\<rparr> 8 = Some 0 \<and>
   is_prefix_b_part_of_a example_headers
     \<lparr>afi = 2, address = [10, 0, 0, 0] @ replicate 12 0\<rparr> 7
     \<lparr>afi = 2, address = [11, 0, 0, 0] @ replicate 12 0\<rparr> 8 = Some 1 \<and>
   is_prefix_b_part_of_a example_headers
     \<lparr>afi = 10, address = [0x20, 0x01, 0x0d, 0xb8, 0, 0, 0, 0, 0, 0, 0, 0, 0, 0, 0, 0]\<rparr> 32
     \<lparr>afi = 10, address = [0x20, 0x01, 0x0d, 0xb8, 0, 0x01, 0, 0, 0, 0, 0, 0, 0, 0, 0, 0]\<rparr> 48 =
     Some 1 \<and>
   is_prefix_b_part_of_a example_headers
     \<lparr>afi = 10, address = [0x20, 0x01, 0x0d, 0xb8, 0, 0, 0, 0, 0, 0, 0, 0, 0, 0, 0, 0]\<rparr> 32
     \<lparr>afi = 10, address = [0xfe, 0x80, 0, 0, 0, 0, 0, 0, 0, 0, 0, 0, 0, 0, 0, 0x01]\<rparr> 64 =
     Some 0 \<and>
   is_prefix_b_part_of_a example_headers
     \<lparr>afi = 10, address = [0x20, 0x01, 0x0d, 0xb8, 0x80, 0, 0, 0, 0, 0, 0, 0, 0, 0, 0, 0]\<rparr> 33
     \<lparr>afi = 10, address = [0x20, 0x01, 0x0d, 0xb8, 0xff, 0xff, 0, 0, 0, 0, 0, 0, 0, 0, 0, 0]\<rparr> 48 =
     Some 1 \<and>
   is_prefix_b_part_of_a example_headers
     \<lparr>afi = 10, address = [0x20, 0x01, 0x0d, 0xb8, 0x80, 0, 0, 0, 0, 0, 0, 0, 0, 0, 0, 0]\<rparr> 33
     \<lparr>afi = 10, address = [0x20, 0x01, 0x0d, 0xb8, 0x7f, 0xff, 0, 0, 0, 0, 0, 0, 0, 0, 0, 0]\<rparr> 48 =
     Some 0"
proof -
  let ?ten = "\<lparr>afi = 2, address = [10, 0, 0, 0] @ replicate 12 0\<rparr>"
  let ?sub = "\<lparr>afi = 2, address = [10, 1, 2, 0] @ replicate 12 0\<rparr>"
  let ?eleven = "\<lparr>afi = 2, address = [11, 0, 0, 0] @ replicate 12 0\<rparr>"
  let ?six = "\<lparr>afi = 10, address = [10, 0, 0, 0] @ replicate 12 0\<rparr>"
  let ?doc = "\<lparr>afi = 10, address = [0x20, 0x01, 0x0d, 0xb8, 0, 0, 0, 0, 0, 0, 0, 0, 0, 0, 0, 0]\<rparr>"
  let ?doc1 = "\<lparr>afi = 10, address = [0x20, 0x01, 0x0d, 0xb8, 0, 0x01, 0, 0, 0, 0, 0, 0, 0, 0, 0, 0]\<rparr>"
  let ?link = "\<lparr>afi = 10, address = [0xfe, 0x80, 0, 0, 0, 0, 0, 0, 0, 0, 0, 0, 0, 0, 0, 0x01]\<rparr>"
  let ?hi = "\<lparr>afi = 10, address = [0x20, 0x01, 0x0d, 0xb8, 0x80, 0, 0, 0, 0, 0, 0, 0, 0, 0, 0, 0]\<rparr>"
  let ?hi1 = "\<lparr>afi = 10, address = [0x20, 0x01, 0x0d, 0xb8, 0xff, 0xff, 0, 0, 0, 0, 0, 0, 0, 0, 0, 0]\<rparr>"
  let ?lo = "\<lparr>afi = 10, address = [0x20, 0x01, 0x0d, 0xb8, 0x7f, 0xff, 0, 0, 0, 0, 0, 0, 0, 0, 0, 0]\<rparr>"
  note T = is_prefix_b_part_of_a_contained [OF example_families]
  have n: "get_network_address example_headers ?ten 8 = Some ?ten"
      "get_network_address example_headers ?sub 8 = Some ?ten"
      "get_network_address example_headers ?eleven 8 = Some ?eleven"
    by (simp_all add: get_network_address_def get_network_address_v4_def shl32_def
        example_headers_simps ntohl_load32 stored32_htonl bytes_of32_def word_of_bytes_def)
  have h1: "afi ?ten = afi ?sub \<and> (8::int) \<le> 24 \<and> valid_prefix example_headers ?ten 8"
    and h2: "afi ?ten = afi ?eleven \<and> (8::int) \<le> 8 \<and> valid_prefix example_headers ?ten 8"
    and h3: "valid_prefix example_headers ?ten 8"
    and h4: "(24::int) > 8"
    and h5: "afi ?ten \<noteq> afi ?six"
    by (simp_all add: valid_prefix_def example_headers_simps)
  have h6: "afi ?ten = afi ?eleven \<and> (7::int) \<le> 8 \<and> valid_prefix example_headers ?ten 7 \<and>
      addr_sized ?ten \<and> addr_sized ?eleven"
    and h7: "afi ?doc = afi ?doc1 \<and> (32::int) \<le> 48 \<and> valid_prefix example_headers ?doc 32 \<and>
      addr_sized ?doc \<and> addr_sized ?doc1"
    and h8: "afi ?doc = afi ?link \<and> (32::int) \<le> 64 \<and> valid_prefix example_headers ?doc 32 \<and>
      addr_sized ?doc \<and> addr_sized ?link"
    and h9: "afi ?hi = afi ?hi1 \<and> (33::int) \<le> 48 \<and> valid_prefix example_headers ?hi 33 \<and>
      addr_sized ?hi \<and> addr_sized ?hi1"
    and h10: "afi ?hi = afi ?lo \<and> (33::int) \<le> 48 \<and> valid_prefix example_headers ?hi 33 \<and>
      addr_sized ?hi \<and> addr_sized ?lo"
    by (simp_all add: valid_prefix_def addr_sized_def example_headers_simps)
  have s: "spec_truncate example_headers ?eleven 7 = spec_truncate example_headers ?ten 7"
      "spec_truncate example_headers ?doc1 32 = spec_truncate example_headers ?doc 32"
      "spec_truncate example_headers ?link 32 \<noteq> spec_truncate example_headers ?doc 32"
      "spec_truncate example_headers ?hi1 33 = spec_truncate example_headers ?hi 33"
      "spec_truncate example_headers ?lo 33 \<noteq> spec_truncate example_headers ?hi 33"
    by (simp_all add: spec_truncate_def family_bytes_def wire_bits_def example_bits
        example_headers_simps)
  have "is_prefix_b_part_of_a example_headers ?ten 8 ?sub 24 = Some 1"
    using T [of ?ten ?sub 8 24, THEN conjunct2, THEN conjunct2, THEN conjunct1, rule_format, OF h1]
    by (simp add: n [simplified] example_headers_simps)
  moreover
  have "is_prefix_b_part_of_a example_headers ?ten 8 ?eleven 8 = Some 0"
    using T [of ?ten ?eleven 8 8, THEN conjunct2, THEN conjunct2, THEN conjunct1, rule_format, OF h2]
    by (simp add: n [simplified] example_headers_simps)
  moreover
  have "is_prefix_b_part_of_a example_headers ?ten 8 ?ten 8 = Some 1"
    using T [of ?ten ?ten 8 8, THEN conjunct2, THEN conjunct2, THEN conjunct2, THEN conjunct1,
        rule_format, OF h3]
    by (simp add: example_headers_simps)
  moreover
  have "is_prefix_b_part_of_a example_headers ?sub 24 ?ten 8 = Some 0"
    using T [of ?sub ?ten 24 8, THEN conjunct2, THEN conjunct1, rule_format, OF h4]
    by (simp add: example_headers_simps)
  moreover
  have "is_prefix_b_part_of_a example_headers ?ten 8 ?six 8 = Some 0"
    using T [of ?ten ?six 8 8, THEN conjunct1, rule_format, OF h5]
    by (simp add: example_headers_simps)
  moreover
  have "is_prefix_b_part_of_a example_headers ?ten 7 ?eleven 8 = Some 1"
    using T [of ?ten ?eleven 7 8, THEN conjunct2, THEN conjunct2, THEN conjunct2, THEN conjunct2,
        rule_format, OF h6]
    by (simp add: s [simplified] example_headers_simps)
  moreover
  have "is_prefix_b_part_of_a example_headers ?doc 32 ?doc1 48 = Some 1"
    using T [of ?doc ?doc1 32 48, THEN conjunct2, THEN conjunct2, THEN conjunct2, THEN conjunct2,
        rule_format, OF h7]
    by (simp add: s [simplified] example_headers_simps)
  moreover
  have "is_prefix_b_part_of_a example_headers ?doc 32 ?link 64 = Some 0"
    using T [of ?doc ?link 32 64, THEN conjunct2, THEN conjunct2, THEN conjunct2, THEN conjunct2,
        rule_format, OF h8]
    by (simp add: s [simplified] example_headers_simps)
  moreover
  have "is_prefix_b_part_of_a example_headers ?hi 33 ?hi1 48 = Some 1"
    using T [of ?hi ?hi1 33 48, THEN conjunct2, THEN conjunct2, THEN conjunct2, THEN conjunct2,
        rule_format, OF h9]
    by (simp add: s [simplified] example_headers_simps)
  moreover
  have "is_prefix_b_part_of_a example_headers ?hi 33 ?lo 48 = Some 0"
    using T [of ?hi ?lo 33 48, THEN conjunct2, THEN conjunct2, THEN conjunct2, THEN conjunct2,
        rule_format, OF h10]
    by (simp add: s [simplified] example_headers_simps)
  ultimately show ?thesis by (intro conjI)
qed

subsection \<open>Wire deserialization\<close>

lemma bytes_of16_word_of_bytes: "bytes_of16 (word_of_bytes [b0, b1]) = [b0, b1]"
  unfolding bytes_of16_def word_of_bytes_def
  apply simp
  apply (intro conjI bit_word_eqI)
   apply (auto simp: bit_simps dest: bit_imp_le_length)
  done

lemma ntohs_load16:
  "ntohs H (load16 H (t0 # t1 # rest) 0) = word_of_bytes [t0, t1]"
  by (simp add: ntohs_def load16_def bytes_of16_word_of_bytes)

lemma lisp2inetafi_unknown:
  "uint t \<notin> {LISP_AFI_NO_ADDR H, LISP_AFI_IP H, LISP_AFI_IPV6 H, LISP_AFI_LCAF H} \<Longrightarrow>
   lisp2inetafi H t = ERR_AFI H"
  by (simp add: lisp2inetafi_def)

text \<open>
  C3, as amended.  \<^verbatim>\<open>extract_lisp_address\<close> reads a 2-byte AFI tag in network byte
  order and maps it through \<^verbatim>\<open>lisp2inetafi\<close>.  For the IP tag it copies exactly the 4
  following bytes, for the IPv6 tag exactly the 16 following bytes, whatever follows
  them; for the no-address tag it yields the unspecified family, reads no payload byte
  and succeeds.  For the LCAF tag and for any other tag it fails with one and the same
  status, \<^verbatim>\<open>ERR_AFI\<close>: the two failures differ only in the family left in the address
  (the LCAF tag, or \<^verbatim>\<open>ERR_AFI\<close>).
\<close>

theorem extract_lisp_address_cases:
  assumes "afi_labels_distinct H" and "family_labels_distinct H" and "status_codes_ok H"
  shows
   "(uint (word_of_bytes [t0, t1] :: u16) = LISP_AFI_IP H \<and> length p = 4 \<longrightarrow>
       extract_lisp_address H ([t0, t1] @ p @ rest) addr =
         Some (GOOD H, \<lparr>afi = AF_INET H, address = p @ drop 4 (address addr)\<rparr>)) \<and>
    (uint (word_of_bytes [t0, t1] :: u16) = LISP_AFI_IPV6 H \<and> length p = 16 \<longrightarrow>
       extract_lisp_address H ([t0, t1] @ p @ rest) addr =
         Some (GOOD H, \<lparr>afi = AF_INET6 H, address = p @ drop 16 (address addr)\<rparr>)) \<and>
    (uint (word_of_bytes [t0, t1] :: u16) = LISP_AFI_NO_ADDR H \<longrightarrow>
       extract_lisp_address H ([t0, t1] @ rest) addr =
         Some (GOOD H, \<lparr>afi = AF_UNSPEC H, address = address addr\<rparr>)) \<and>
    (uint (word_of_bytes [t0, t1] :: u16) = LISP_AFI_LCAF H \<longrightarrow>
       extract_lisp_address H ([t0, t1] @ rest) addr =
         Some (ERR_AFI H, \<lparr>afi = LISP_AFI_LCAF H, address = address addr\<rparr>)) \<and>
    (uint (word_of_bytes [t0, t1] :: u16) \<notin>
         {LISP_AFI_NO_ADDR H, LISP_AFI_IP H, LISP_AFI_IPV6 H, LISP_AFI_LCAF H} \<longrightarrow>
       extract_lisp_address H ([t0, t1] @ rest) addr =
         Some (ERR_AFI H, \<lparr>afi = ERR_AFI H, address = address addr\<rparr>))"
proof -
  note l2i = lisp2inetafi_on_labels [OF assms(1)]
  from assms(2) have fam: "AF_INET H \<noteq> AF_INET6 H" "AF_UNSPEC H \<noteq> AF_INET H"
    "AF_UNSPEC H \<noteq> AF_INET6 H" "LISP_AFI_LCAF H \<noteq> AF_INET H"
    "LISP_AFI_LCAF H \<noteq> AF_INET6 H" "LISP_AFI_LCAF H \<noteq> AF_UNSPEC H"
    by (auto simp: family_labels_distinct_def)
  from assms(3) have err: "ERR_AFI H \<noteq> AF_INET H" "ERR_AFI H \<noteq> AF_INET6 H"
    "ERR_AFI H \<noteq> AF_UNSPEC H" "ERR_AFI H \<noteq> LISP_AFI_LCAF H"
    by (auto simp: status_codes_ok_def)
  show ?thesis
  proof (intro conjI impI)
    assume "uint (word_of_bytes [t0, t1] :: u16) = LISP_AFI_IP H \<and> length p = 4"
    then show "extract_lisp_address H ([t0, t1] @ p @ rest) addr =
         Some (GOOD H, \<lparr>afi = AF_INET H, address = p @ drop 4 (address addr)\<rparr>)"
      by (simp add: extract_lisp_address_def ntohs_load16 l2i Let_def)
  next
    assume "uint (word_of_bytes [t0, t1] :: u16) = LISP_AFI_IPV6 H \<and> length p = 16"
    then show "extract_lisp_address H ([t0, t1] @ p @ rest) addr =
         Some (GOOD H, \<lparr>afi = AF_INET6 H, address = p @ drop 16 (address addr)\<rparr>)"
      using fam by (simp add: extract_lisp_address_def ntohs_load16 l2i Let_def)
  next
    assume "uint (word_of_bytes [t0, t1] :: u16) = LISP_AFI_NO_ADDR H"
    then show "extract_lisp_address H ([t0, t1] @ rest) addr =
         Some (GOOD H, \<lparr>afi = AF_UNSPEC H, address = address addr\<rparr>)"
      using fam by (simp add: extract_lisp_address_def ntohs_load16 l2i Let_def)
  next
    assume "uint (word_of_bytes [t0, t1] :: u16) = LISP_AFI_LCAF H"
    then show "extract_lisp_address H ([t0, t1] @ rest) addr =
         Some (ERR_AFI H, \<lparr>afi = LISP_AFI_LCAF H, address = address addr\<rparr>)"
      using fam by (simp add: extract_lisp_address_def ntohs_load16 l2i Let_def)
  next
    assume "uint (word_of_bytes [t0, t1] :: u16) \<notin>
         {LISP_AFI_NO_ADDR H, LISP_AFI_IP H, LISP_AFI_IPV6 H, LISP_AFI_LCAF H}"
    then have "lisp2inetafi H (word_of_bytes [t0, t1]) = ERR_AFI H"
      by (rule lisp2inetafi_unknown)
    then show "extract_lisp_address H ([t0, t1] @ rest) addr =
         Some (ERR_AFI H, \<lparr>afi = ERR_AFI H, address = address addr\<rparr>)"
      using err by (simp add: extract_lisp_address_def ntohs_load16 Let_def)
  qed
qed

theorem extract_lisp_address_cases_witness:
  "extract_lisp_address example_headers [0, 1, 10, 0, 0, 1, 0xFF] \<lparr>afi = 0, address = replicate 16 7\<rparr> =
     Some (1, \<lparr>afi = 2, address = [10, 0, 0, 1] @ replicate 12 7\<rparr>) \<and>
   extract_lisp_address example_headers
     ([0, 2] @ [0x20, 0x01, 0x0d, 0xb8, 0, 0, 0, 0, 0, 0, 0, 0, 0, 0, 0, 1] @ [0xFF])
     \<lparr>afi = 0, address = replicate 16 7\<rparr> =
     Some (1, \<lparr>afi = 10, address = [0x20, 0x01, 0x0d, 0xb8, 0, 0, 0, 0, 0, 0, 0, 0, 0, 0, 0, 1]\<rparr>) \<and>
   extract_lisp_address example_headers [0, 0] \<lparr>afi = 2, address = replicate 16 7\<rparr> =
     Some (1, \<lparr>afi = 0, address = replicate 16 7\<rparr>) \<and>
   extract_lisp_address example_headers [0x40, 0x03] \<lparr>afi = 2, address = replicate 16 7\<rparr> =
     Some (- 2, \<lparr>afi = 16387, address = replicate 16 7\<rparr>) \<and>
   extract_lisp_address example_headers [0, 3] \<lparr>afi = 2, address = replicate 16 7\<rparr> =
     Some (- 2, \<lparr>afi = - 2, address = replicate 16 7\<rparr>)"
proof -
  note T = extract_lisp_address_cases [OF example_headers_labels(1,2,5)]
  have tags: "uint (word_of_bytes [0, 1] :: u16) = 1" "uint (word_of_bytes [0, 2] :: u16) = 2"
    "uint (word_of_bytes [0, 0] :: u16) = 0" "uint (word_of_bytes [0x40, 0x03] :: u16) = 16387"
    "uint (word_of_bytes [0, 3] :: u16) = 3"
    by (simp_all add: word_of_bytes_def)
  have h1: "uint (word_of_bytes [0, 1] :: u16) = LISP_AFI_IP example_headers \<and>
      length [10, 0, 0, 1 :: u8] = 4"
    and h2: "uint (word_of_bytes [0, 2] :: u16) = LISP_AFI_IPV6 example_headers \<and>
      length [0x20, 0x01, 0x0d, 0xb8, 0, 0, 0, 0, 0, 0, 0, 0, 0, 0, 0, 1 :: u8] = 16"
    and h3: "uint (word_of_bytes [0, 0] :: u16) = LISP_AFI_NO_ADDR example_headers"
    and h4: "uint (word_of_bytes [0x40, 0x03] :: u16) = LISP_AFI_LCAF example_headers"
    and h5: "uint (word_of_bytes [0, 3] :: u16) \<notin>
      {LISP_AFI_NO_ADDR example_headers, LISP_AFI_IP example_headers,
       LISP_AFI_IPV6 example_headers, LISP_AFI_LCAF example_headers}"
    by (simp_all add: tags example_headers_simps)
  have "extract_lisp_address example_headers [0, 1, 10, 0, 0, 1, 0xFF] \<lparr>afi = 0, address = replicate 16 7\<rparr> =
     Some (1, \<lparr>afi = 2, address = [10, 0, 0, 1] @ replicate 12 7\<rparr>)"
    using T [of 0 1 "[10, 0, 0, 1]" "[0xFF]" "\<lparr>afi = 0, address = replicate 16 7\<rparr>",
        THEN conjunct1, rule_format, OF h1]
    by (simp add: example_headers_simps)
  moreover
  have "extract_lisp_address example_headers
     ([0, 2] @ [0x20, 0x01, 0x0d, 0xb8, 0, 0, 0, 0, 0, 0, 0, 0, 0, 0, 0, 1] @ [0xFF])
     \<lparr>afi = 0, address = replicate 16 7\<rparr> =
     Some (1, \<lparr>afi = 10, address = [0x20, 0x01, 0x0d, 0xb8, 0, 0, 0, 0, 0, 0, 0, 0, 0, 0, 0, 1]\<rparr>)"
    using T [of 0 2 "[0x20, 0x01, 0x0d, 0xb8, 0, 0, 0, 0, 0, 0, 0, 0, 0, 0, 0, 1]" "[0xFF]"
        "\<lparr>afi = 0, address = replicate 16 7\<rparr>",
        THEN conjunct2, THEN conjunct1, rule_format, OF h2]
    by (simp add: example_headers_simps)
  moreover
  have "extract_lisp_address example_headers [0, 0] \<lparr>afi = 2, address = replicate 16 7\<rparr> =
     Some (1, \<lparr>afi = 0, address = replicate 16 7\<rparr>)"
    using T [of 0 0 _ "[]" "\<lparr>afi = 2, address = replicate 16 7\<rparr>",
        THEN conjunct2, THEN conjunct2, THEN conjunct1, rule_format, OF h3]
    by (simp add: example_headers_simps)
  moreover
  have "extract_lisp_address example_headers [0x40, 0x03] \<lparr>afi = 2, address = replicate 16 7\<rparr> =
     Some (- 2, \<lparr>afi = 16387, address = replicate 16 7\<rparr>)"
    using T [of "0x40" "0x03" _ "[]" "\<lparr>afi = 2, address = replicate 16 7\<rparr>",
        THEN conjunct2, THEN conjunct2, THEN conjunct2, THEN conjunct1, rule_format, OF h4]
    by (simp add: example_headers_simps)
  moreover
  have "extract_lisp_address example_headers [0, 3] \<lparr>afi = 2, address = replicate 16 7\<rparr> =
     Some (- 2, \<lparr>afi = - 2, address = replicate 16 7\<rparr>)"
    using T [of 0 3 _ "[]" "\<lparr>afi = 2, address = replicate 16 7\<rparr>",
        THEN conjunct2, THEN conjunct2, THEN conjunct2, THEN conjunct2, rule_format, OF h5]
    by (simp add: example_headers_simps)
  ultimately show ?thesis by (intro conjI)
qed

text \<open>
  C3 as stated names two errors, one for the LCAF tag and another for an unknown tag.
  The status returned is the same: at the LCAF tag \<open>0x4003\<close> and at the unassigned tag
  3 the function returns \<^verbatim>\<open>ERR_AFI\<close>.
\<close>

theorem extract_lisp_address_lcaf_counterexample:
  "map_option fst (extract_lisp_address example_headers [0x40, 0x03]
      \<lparr>afi = 2, address = replicate 16 7\<rparr>) =
   map_option fst (extract_lisp_address example_headers [0, 3]
      \<lparr>afi = 2, address = replicate 16 7\<rparr>) \<and>
   map_option fst (extract_lisp_address example_headers [0x40, 0x03]
      \<lparr>afi = 2, address = replicate 16 7\<rparr>) = Some (ERR_AFI example_headers) \<and>
   lisp2inetafi example_headers (word_of_bytes [0x40, 0x03]) = LISP_AFI_LCAF example_headers \<and>
   lisp2inetafi example_headers (word_of_bytes [0, 3]) = ERR_AFI example_headers"
proof -
  have "uint (word_of_bytes [0x40, 0x03] :: u16) = 16387" "uint (word_of_bytes [0, 3] :: u16) = 3"
    by (simp_all add: word_of_bytes_def)
  then show ?thesis
    by (simp add: extract_lisp_address_def ntohs_load16 lisp2inetafi_def example_headers_simps)
qed

subsection \<open>Host names\<close>














subsection \<open>Parsing a prefix\<close>



















end
